theory Spec2Isabelle
  imports Main "HOL-Library.Multiset"
begin

section \<open>JavaScript values\<close>

text \<open>
  The module \<^verbatim>\<open>12-panchayat-election.js\<close> is dynamically typed and guards its inputs
  with \<^verbatim>\<open>typeof\<close>, truthiness and \<^verbatim>\<open>Array.isArray\<close>. Its data inputs are
  therefore modelled as values of one type \<open>jsval\<close>: \<^verbatim>\<open>undefined\<close>, \<^verbatim>\<open>null\<close>,
  booleans, numbers, strings, arrays and plain objects (an object is the list of its own
  properties; \<open>map_of\<close> reads it, so the first binding of a key is the property).

  Numbers are the integers and \<^verbatim>\<open>NaN\<close>; \<open>Fin n\<close> is the double whose value is
  the integer \<open>n\<close>. Fractions and infinities are outside the model, and so is the
  rounding of IEEE doubles: an addition is modelled only where it is exact (see
  \<open>num_add\<close>). Functions are not data values here: the
  callbacks of \<^verbatim>\<open>castVote\<close> and the comparator of \<^verbatim>\<open>getResults\<close> are HOL functions.
\<close>

datatype num = Fin int | NaN

datatype jsval =
    JUndefined
  | JNull
  | JBool bool
  | JNum num
  | JStr string
  | JArr "jsval list"
  | JObj "(string \<times> jsval) list"

datatype jstype = TUndefined | TObject | TBoolean | TNumber | TString

text \<open>
  A call either returns a value (\<open>Inr\<close>) or ends in an \<open>error\<close> (\<open>Inl\<close>).
  \<open>TypeError\<close> is the JavaScript exception. \<open>Unmodelled\<close> is no JavaScript outcome:
  it marks the few inputs on which the result depends on a part of the runtime that this
  theory does not model (the source text of a built-in function, the parsing of a string
  as a number, \<^verbatim>\<open>Array.prototype\<close>), so that no theorem says anything about them.
\<close>

datatype error = TypeError | Unmodelled

text \<open>\<^verbatim>\<open>typeof v\<close>: \<^verbatim>\<open>null\<close> and arrays are \<^verbatim>\<open>"object"\<close>.\<close>

fun typeof :: "jsval \<Rightarrow> jstype" where
  "typeof JUndefined = TUndefined"
| "typeof JNull = TObject"
| "typeof (JBool b) = TBoolean"
| "typeof (JNum n) = TNumber"
| "typeof (JStr s) = TString"
| "typeof (JArr xs) = TObject"
| "typeof (JObj ps) = TObject"

text \<open>Truthiness (\<^verbatim>\<open>ToBoolean\<close>): what \<^verbatim>\<open>!v\<close>, \<^verbatim>\<open>v && w\<close> and \<^verbatim>\<open>v || w\<close> test.\<close>

fun truthy :: "jsval \<Rightarrow> bool" where
  "truthy JUndefined = False"
| "truthy JNull = False"
| "truthy (JBool b) = b"
| "truthy (JNum (Fin n)) = (n \<noteq> 0)"
| "truthy (JNum NaN) = False"
| "truthy (JStr s) = (s \<noteq> [])"
| "truthy (JArr xs) = True"
| "truthy (JObj ps) = True"

text \<open>
  \<^verbatim>\<open>v.k\<close> for the property names the module reads with dot syntax (\<^verbatim>\<open>id\<close>,
  \<^verbatim>\<open>name\<close>, \<^verbatim>\<open>party\<close>, \<^verbatim>\<open>age\<close>, \<^verbatim>\<open>votes\<close>, \<^verbatim>\<open>subRegions\<close>, \<^verbatim>\<open>minAge\<close>,
  \<^verbatim>\<open>requiredFields\<close>) on a value that is neither \<^verbatim>\<open>undefined\<close> nor \<^verbatim>\<open>null\<close>.
  No built-in prototype defines one of these names, so the read is the own property of a
  plain object and \<^verbatim>\<open>undefined\<close> on everything else. Callers check for
  \<^verbatim>\<open>undefined\<close>/\<^verbatim>\<open>null\<close> first, where the read throws.
\<close>

definition get_field :: "jsval \<Rightarrow> string \<Rightarrow> jsval" where
  "get_field v k =
     (case v of
        JObj ps \<Rightarrow> (case map_of ps k of Some x \<Rightarrow> x | None \<Rightarrow> JUndefined)
      | _ \<Rightarrow> JUndefined)"

text \<open>
  Addition of two doubles. \<^verbatim>\<open>NaN\<close> absorbs. Every integer of absolute value up to
  \<open>2\<^sup>5\<^sup>3 = 9007199254740992\<close> is a double, so the sum of two such integers is exact
  when it lies in that range again. Outside it the double addition rounds, and the
  result is \<open>Unmodelled\<close>.
\<close>

definition safe_int :: "int \<Rightarrow> bool" where
  "safe_int a \<longleftrightarrow> \<bar>a\<bar> \<le> 9007199254740992"

fun num_add :: "num \<Rightarrow> num \<Rightarrow> error + num" where
  "num_add (Fin a) (Fin b) =
     (if safe_int a \<and> safe_int b \<and> safe_int (a + b) then Inr (Fin (a + b))
      else Inl Unmodelled)"
| "num_add _ _ = Inr NaN"

text \<open>\<^verbatim>\<open>a < b\<close> on two numbers: false as soon as one is \<^verbatim>\<open>NaN\<close>.\<close>

fun num_lt :: "num \<Rightarrow> num \<Rightarrow> bool" where
  "num_lt (Fin a) (Fin b) = (a < b)"
| "num_lt _ _ = False"

section \<open>countVotesInRegions\<close>

lemma size_map_of:
  "map_of ps k = Some v \<Longrightarrow> size v < size (JObj ps)"
  by (induction ps) (auto split: if_splits)

lemma size_get_field_arr:
  "get_field t k = JArr xs \<Longrightarrow> x \<in> set xs \<Longrightarrow> size x < size t"
proof -
  assume g: "get_field t k = JArr xs" and x: "x \<in> set xs"
  from g obtain ps where t: "t = JObj ps" and m: "map_of ps k = Some (JArr xs)"
    by (auto simp: get_field_def split: jsval.splits option.splits)
  from x have "size x < size (JArr xs)"
    by (induction xs) auto
  also from m have "\<dots> < size (JObj ps)" by (rule size_map_of)
  finally show ?thesis using t by simp
qed

text \<open>
  \<^verbatim>\<open>
  export function countVotesInRegions(regionTree) {
    if (!regionTree || typeof regionTree !== "object") return 0;
    let total = typeof regionTree.votes === "number" ? regionTree.votes : 0;
    if (Array.isArray(regionTree.subRegions)) {
      for (const sub of regionTree.subRegions) {
        total += countVotesInRegions(sub);
      }
    }
    return total;
  }
  \<close>
  The loop is a left fold over the sub-regions with the running total as accumulator;
  \<open>add_result\<close> is one round of it, \<^verbatim>\<open>total += countVotesInRegions(sub)\<close>, with the
  addition of doubles \<open>num_add\<close>. A \<open>jsval\<close> is a finite tree, so the recursion
  terminates; the cyclic object graphs on which the JavaScript recurses forever are not
  values of the type.
\<close>

definition add_result :: "error + num \<Rightarrow> error + num \<Rightarrow> error + num" where
  "add_result acc r =
     (case acc of
        Inl e \<Rightarrow> Inl e
      | Inr a \<Rightarrow> (case r of Inl e \<Rightarrow> Inl e | Inr b \<Rightarrow> num_add a b))"

function countVotesInRegions :: "jsval \<Rightarrow> error + num" where
  "countVotesInRegions regionTree =
     (if \<not> truthy regionTree \<or> typeof regionTree \<noteq> TObject then Inr (Fin 0)
      else
        let total = (case get_field regionTree ''votes'' of JNum n \<Rightarrow> n | _ \<Rightarrow> Fin 0)
        in (case get_field regionTree ''subRegions'' of
              JArr subs \<Rightarrow>
                foldl (\<lambda>t sub. add_result t (countVotesInRegions sub)) (Inr total) subs
            | _ \<Rightarrow> Inr total))"
  by pat_completeness auto
termination
  by (relation "measure size") (auto simp: size_get_field_arr)

declare countVotesInRegions.simps [simp del]




























text \<open>
  Beyond that bound the additions of doubles round, and the code's result is no longer
  the exact sum: the model gives no value there. With own votes \<open>2\<^sup>5\<^sup>3\<close> and one
  sub-region with 1 vote, the exact total is \<open>2\<^sup>5\<^sup>3 + 1\<close>, which is not a double.
\<close>

lemma countVotesInRegions_inexact:
  "countVotesInRegions
     (JObj [(''votes'', JNum (Fin 9007199254740992)),
            (''subRegions'', JArr [JObj [(''votes'', JNum (Fin 1))]])]) = Inl Unmodelled"
  by (simp add: countVotesInRegions.simps get_field_def add_result_def safe_int_def)

section \<open>Conversion to strings and property keys\<close>

text \<open>
  \<^verbatim>\<open>ToString\<close>, which is also \<^verbatim>\<open>ToPropertyKey\<close> on these values: it turns the
  operand of \<^verbatim>\<open>o[k]\<close>, of \<^verbatim>\<open>o.hasOwnProperty(k)\<close> and of a template literal into a
  string. An integer prints in decimal (the exponent notation of magnitudes from
  \<open>10\<^sup>2\<^sup>1\<close> on is outside the model). An array prints its elements joined by commas,
  \<^verbatim>\<open>undefined\<close> and \<^verbatim>\<open>null\<close> elements as the empty string. A plain object prints
  \<^verbatim>\<open>[object Object]\<close> through \<^verbatim>\<open>Object.prototype.toString\<close>; when it has an own
  property \<^verbatim>\<open>toString\<close>, that property is not a function (no value of \<open>jsval\<close> is),
  \<^verbatim>\<open>Object.prototype.valueOf\<close> returns the object itself or an own \<^verbatim>\<open>valueOf\<close> is not
  callable either, and the conversion throws a \<^verbatim>\<open>TypeError\<close>.
\<close>

definition digit_char :: "nat \<Rightarrow> char" where
  "digit_char d = ''0123456789'' ! d"

fun show_nat :: "nat \<Rightarrow> string" where
  "show_nat n = (if n < 10 then [digit_char n] else show_nat (n div 10) @ [digit_char (n mod 10)])"

declare show_nat.simps [simp del]

definition show_int :: "int \<Rightarrow> string" where
  "show_int i = (if i < 0 then CHR ''-'' # show_nat (nat (- i)) else show_nat (nat i))"

fun to_string :: "jsval \<Rightarrow> error + string"
  and join_elems :: "jsval list \<Rightarrow> error + string" where
  "to_string JUndefined = Inr ''undefined''"
| "to_string JNull = Inr ''null''"
| "to_string (JBool b) = Inr (if b then ''true'' else ''false'')"
| "to_string (JNum (Fin n)) = Inr (show_int n)"
| "to_string (JNum NaN) = Inr ''NaN''"
| "to_string (JStr s) = Inr s"
| "to_string (JArr xs) = join_elems xs"
| "to_string (JObj ps) =
     (if map_of ps ''toString'' \<noteq> None then Inl TypeError else Inr ''[object Object]'')"
| "join_elems [] = Inr []"
| "join_elems (x # xs) =
     (case (if x = JUndefined \<or> x = JNull then Inr [] else to_string x) of
        Inl e \<Rightarrow> Inl e
      | Inr s \<Rightarrow>
          (if xs = [] then Inr s
           else (case join_elems xs of Inl e \<Rightarrow> Inl e | Inr r \<Rightarrow> Inr (s @ '','' @ r))))"


section \<open>Plain objects used as dictionaries\<close>

text \<open>
  The objects \<^verbatim>\<open>votes\<close> and \<^verbatim>\<open>currentTally\<close> are created by object literals, so
  their prototype is \<^verbatim>\<open>Object.prototype\<close>. A read \<^verbatim>\<open>o[k]\<close> finds the own property,
  else the inherited one: \<^verbatim>\<open>__proto__\<close> reads the prototype object itself, the names
  of \<open>object_prototype_methods\<close> read built-in functions, every other name reads
  \<^verbatim>\<open>undefined\<close>. \<open>set_prop\<close> defines or overwrites an own property.
\<close>

datatype 'a lookup = Own 'a | ProtoObject | ProtoMethod | Absent

definition object_prototype_methods :: "string list" where
  "object_prototype_methods =
     [''constructor'', ''hasOwnProperty'', ''isPrototypeOf'', ''propertyIsEnumerable'',
      ''toLocaleString'', ''toString'', ''valueOf'', ''__defineGetter__'',
      ''__defineSetter__'', ''__lookupGetter__'', ''__lookupSetter__'']"

definition dict_read :: "(string \<times> 'a) list \<Rightarrow> string \<Rightarrow> 'a lookup" where
  "dict_read ps k =
     (case map_of ps k of
        Some v \<Rightarrow> Own v
      | None \<Rightarrow>
          if k = ''__proto__'' then ProtoObject
          else if k \<in> set object_prototype_methods then ProtoMethod
          else Absent)"

fun set_prop :: "string \<Rightarrow> 'a \<Rightarrow> (string \<times> 'a) list \<Rightarrow> (string \<times> 'a) list" where
  "set_prop k v [] = [(k, v)]"
| "set_prop k v (p # ps) = (if fst p = k then (k, v) # ps else p # set_prop k v ps)"

section \<open>tallyPure\<close>

text \<open>
  \<^verbatim>\<open>
  export function tallyPure(currentTally, candidateId) {
    if (typeof currentTally !== "object" || candidateId == null) return {};
    return {
      ...currentTally,
      [candidateId]: (currentTally[candidateId] || 0) + 1,
    };
  }
  \<close>
  \<open>add_one\<close> is \<^verbatim>\<open>v + 1\<close>: numeric on \<^verbatim>\<open>undefined\<close>, \<^verbatim>\<open>null\<close>, booleans and
  numbers (the addition of doubles \<open>num_add\<close>), string concatenation on strings and on
  objects (which convert to strings).
  \<open>tally_entry\<close> computes the key and the value of the computed property. An
  inherited \<^verbatim>\<open>__proto__\<close> is the truthy prototype object, which concatenates as
  \<^verbatim>\<open>[object Object]1\<close>; an inherited method is a function whose source text is
  implementation-defined, so that result is \<open>Unmodelled\<close>. \<^verbatim>\<open>typeof null\<close> is
  \<^verbatim>\<open>"object"\<close>, so \<^verbatim>\<open>null\<close> passes the guard and the read \<^verbatim>\<open>null[candidateId]\<close>
  throws. An array tally consults \<^verbatim>\<open>Array.prototype\<close> and is \<open>Unmodelled\<close>.
\<close>

fun add_one :: "jsval \<Rightarrow> error + jsval" where
  "add_one JUndefined = Inr (JNum NaN)"
| "add_one JNull = Inr (JNum (Fin 1))"
| "add_one (JBool b) = Inr (JNum (Fin (if b then 2 else 1)))"
| "add_one (JNum n) = (case num_add n (Fin 1) of Inl e \<Rightarrow> Inl e | Inr m \<Rightarrow> Inr (JNum m))"
| "add_one (JStr s) = Inr (JStr (s @ ''1''))"
| "add_one v = (case to_string v of Inl e \<Rightarrow> Inl e | Inr s \<Rightarrow> Inr (JStr (s @ ''1'')))"

definition tally_entry :: "(string \<times> jsval) list \<Rightarrow> jsval \<Rightarrow> error + (string \<times> jsval)" where
  "tally_entry ps candidateId =
     (case to_string candidateId of
        Inl e \<Rightarrow> Inl e
      | Inr k \<Rightarrow>
          (case dict_read ps k of
             Own v \<Rightarrow>
               (case add_one (if truthy v then v else JNum (Fin 0)) of
                  Inl e \<Rightarrow> Inl e
                | Inr w \<Rightarrow> Inr (k, w))
           | ProtoObject \<Rightarrow> Inr (k, JStr ''[object Object]1'')
           | ProtoMethod \<Rightarrow> Inl Unmodelled
           | Absent \<Rightarrow> Inr (k, JNum (Fin 1))))"

definition tallyPure :: "jsval \<Rightarrow> jsval \<Rightarrow> error + jsval" where
  "tallyPure currentTally candidateId =
     (if typeof currentTally \<noteq> TObject \<or> candidateId = JNull \<or> candidateId = JUndefined
      then Inr (JObj [])
      else
        (case currentTally of
           JObj ps \<Rightarrow>
             (case tally_entry ps candidateId of
                Inl e \<Rightarrow> Inl e
              | Inr (k, w) \<Rightarrow> Inr (JObj (set_prop k w ps)))
         | JArr xs \<Rightarrow> Inl Unmodelled
         | _ \<Rightarrow> Inl TypeError))"


subsection \<open>tallyPure on a store\<close>

text \<open>
  Whether the caller's object is mutated is a question about the store, so the same
  function is also modelled on a heap: the list of the objects allocated so far, an
  object's address being its index. The object literal allocates a fresh object, the
  spread copies the own properties of the source into it one by one, and the computed
  property is written last; \<open>heap_write\<close> is the only operation that changes an object.
  The key and the value are computed by \<open>tally_entry\<close> from the source object as it
  is in the heap. When that computation throws or is \<open>Unmodelled\<close>, no existing object
  has been written either, and the model returns the heap as it was. An argument is a
  value passed directly or a reference to an object of the heap; property getters and
  proxies, whose reads can run code, are not values of \<open>jsval\<close>.
\<close>

type_synonym heap = "jsval list"

datatype argument = Immediate jsval | Reference nat

definition deref :: "heap \<Rightarrow> argument \<Rightarrow> jsval option" where
  "deref h x =
     (case x of
        Immediate v \<Rightarrow> Some v
      | Reference a \<Rightarrow> if a < length h then Some (h ! a) else None)"

definition heap_write :: "heap \<Rightarrow> nat \<Rightarrow> string \<Rightarrow> jsval \<Rightarrow> heap" where
  "heap_write h a k v =
     (case h ! a of JObj ps \<Rightarrow> h[a := JObj (set_prop k v ps)] | _ \<Rightarrow> h)"

fun own_props :: "(string \<times> 'a) list \<Rightarrow> (string \<times> 'a) list" where
  "own_props [] = []"
| "own_props (p # ps) = p # own_props (filter (\<lambda>q. fst q \<noteq> fst p) ps)"

definition copy_props :: "heap \<Rightarrow> nat \<Rightarrow> (string \<times> jsval) list \<Rightarrow> heap" where
  "copy_props h a ps = foldl (\<lambda>h' p. heap_write h' a (fst p) (snd p)) h (own_props ps)"

definition tallyPure_heap :: "heap \<Rightarrow> argument \<Rightarrow> jsval \<Rightarrow> (error + nat) \<times> heap" where
  "tallyPure_heap h currentTally candidateId =
     (case deref h currentTally of
        None \<Rightarrow> (Inl Unmodelled, h)
      | Some t \<Rightarrow>
          if typeof t \<noteq> TObject \<or> candidateId = JNull \<or> candidateId = JUndefined
          then (Inr (length h), h @ [JObj []])
          else
            (case t of
               JObj ps \<Rightarrow>
                 (case tally_entry ps candidateId of
                    Inl e \<Rightarrow> (Inl e, h)
                  | Inr (k, w) \<Rightarrow>
                      let a = length h;
                          h1 = h @ [JObj []];
                          h2 = copy_props h1 a ps;
                          h3 = heap_write h2 a k w
                      in (Inr a, h3))
             | JArr xs \<Rightarrow> (Inl Unmodelled, h)
             | _ \<Rightarrow> (Inl TypeError, h)))"

lemma map_of_set_prop: "map_of (set_prop k v ps) = (map_of ps)(k \<mapsto> v)"
  by (induction ps) (auto simp: fun_eq_iff)

lemma length_heap_write: "length (heap_write h a k v) = length h"
  by (simp add: heap_write_def split: jsval.splits)

lemma take_heap_write: "n \<le> a \<Longrightarrow> take n (heap_write h a k v) = take n h"
  by (simp add: heap_write_def split: jsval.splits)

lemma take_copy_props: "n \<le> a \<Longrightarrow> take n (copy_props h a ps) = take n h"
proof -
  assume n: "n \<le> a"
  have "take n (foldl (\<lambda>h' p. heap_write h' a (fst p) (snd p)) h qs) = take n h" for qs
    by (induction qs arbitrary: h) (simp_all add: take_heap_write n)
  then show ?thesis by (simp add: copy_props_def)
qed

lemma heap_write_last:
  "heap_write (h @ [JObj acc]) (length h) k v = h @ [JObj (set_prop k v acc)]"
  by (simp add: heap_write_def)

lemma foldl_heap_write_last:
  "foldl (\<lambda>h' p. heap_write h' (length h) (fst p) (snd p)) (h @ [JObj acc]) qs =
     h @ [JObj (foldl (\<lambda>a p. set_prop (fst p) (snd p) a) acc qs)]"
  by (induction qs arbitrary: acc) (simp_all add: heap_write_last)

lemma map_of_foldl_set_prop:
  "map_of (foldl (\<lambda>a p. set_prop (fst p) (snd p) a) acc qs) = map_of acc ++ map_of (rev qs)"
  by (induction qs arbitrary: acc) (simp_all add: map_of_set_prop)

lemma map_of_filter_key:
  "map_of (filter (\<lambda>q. fst q \<noteq> a) ps) k = (if k = a then None else map_of ps k)"
  by (induction ps) auto

lemma keys_own_props: "set (map fst (own_props ps)) \<subseteq> set (map fst ps)"
  by (induction ps rule: own_props.induct) auto

lemma distinct_own_props: "distinct (map fst (own_props ps))"
proof (induction ps rule: own_props.induct)
  case 1
  then show ?case by simp
next
  case (2 p ps)
  have "fst p \<notin> set (map fst (own_props (filter (\<lambda>q. fst q \<noteq> fst p) ps)))"
    using keys_own_props [of "filter (\<lambda>q. fst q \<noteq> fst p) ps"] by auto
  with 2 show ?case by simp
qed

lemma map_of_own_props: "map_of (own_props ps) = map_of ps"
proof (induction ps rule: own_props.induct)
  case 1
  then show ?case by simp
next
  case (2 p ps)
  then show ?case by (cases p) (auto simp: fun_eq_iff map_of_filter_key)
qed

lemma map_of_rev_distinct: "distinct (map fst qs) \<Longrightarrow> map_of (rev qs) = map_of qs"
  by (rule map_of_inject_set [THEN iffD2]) (simp_all add: distinct_rev rev_map [symmetric])

lemma copy_props_fresh:
  "\<exists>qs. copy_props (h @ [JObj []]) (length h) ps = h @ [JObj qs] \<and> map_of qs = map_of ps"
  by (simp add: copy_props_def foldl_heap_write_last map_of_foldl_set_prop
        map_of_rev_distinct distinct_own_props map_of_own_props)

lemma tallyPure_heap_refines:
  assumes "deref h t = Some v"
  shows "case tallyPure v c of
           Inl e \<Rightarrow> tallyPure_heap h t c = (Inl e, h)
         | Inr r \<Rightarrow>
             (\<exists>qs rs. tallyPure_heap h t c = (Inr (length h), h @ [JObj qs])
                \<and> r = JObj rs \<and> map_of qs = map_of rs)"
proof -
  have obj: "\<exists>qs. heap_write (copy_props (h @ [JObj []]) (length h) ps) (length h) k w
                  = h @ [JObj qs] \<and> map_of qs = map_of (set_prop k w ps)" for ps k w
  proof -
    obtain qs where q: "copy_props (h @ [JObj []]) (length h) ps = h @ [JObj qs]"
      and m: "map_of qs = map_of ps"
      using copy_props_fresh by blast
    show ?thesis
      by (simp add: q heap_write_last map_of_set_prop m)
  qed
  show ?thesis
    using assms obj
    by (auto simp: tallyPure_def tallyPure_heap_def Let_def
          split: jsval.splits sum.splits prod.splits)
qed


text \<open>What \<open>tallyPure\<close> does away from \<^verbatim>\<open>null\<close>: the empty object when the guard
  fires, and on a plain object and a string key the same mapping with the key's count
  incremented, an absent key counting as 0 (for a count from 0 to below \<open>2\<^sup>5\<^sup>3\<close>,
  where the increment is exact).\<close>

lemma tallyPure_not_object:
  "typeof t \<noteq> TObject \<or> c = JNull \<or> c = JUndefined \<Longrightarrow> tallyPure t c = Inr (JObj [])"
  by (auto simp: tallyPure_def)

lemma tallyPure_increments:
  assumes "map_of ps k = Some (JNum (Fin n))
           \<or> (map_of ps k = None \<and> n = 0 \<and> k \<notin> set (''__proto__'' # object_prototype_methods))"
    and "0 \<le> n" and "n < 9007199254740992"
  shows "\<exists>qs. tallyPure (JObj ps) (JStr k) = Inr (JObj qs)
            \<and> map_of qs = (map_of ps)(k \<mapsto> JNum (Fin (n + 1)))"
  using assms
  by (auto simp: tallyPure_def tally_entry_def dict_read_def map_of_set_prop safe_int_def)

text \<open>
  Claim C5 (the code breaks it). \<open>tallyPure\<close> is specified to return a value on
  every pair of inputs and the empty mapping when \<^verbatim>\<open>currentTally\<close> is not an object-like
  mapping. At \<^verbatim>\<open>tallyPure(null, "a")\<close> the guard \<^verbatim>\<open>typeof currentTally !== "object"\<close>
  lets \<^verbatim>\<open>null\<close> through and the call throws a \<^verbatim>\<open>TypeError\<close>; on an undefined tally,
  which the guard does catch, the result is the empty mapping. Lemmas
  \<open>tallyPure_not_object\<close> and \<open>tallyPure_increments\<close> show the specified results on
  the other inputs.
\<close>

theorem tallyPure_null_throws:
  "tallyPure JNull (JStr ''a'') = Inl TypeError
   \<and> tallyPure JUndefined (JStr ''a'') = Inr (JObj [])"
  by (simp add: tallyPure_def)

theorem tallyPure_null_throws_witness:
  "tallyPure JNull (JStr ''a'') \<noteq> Inr (JObj [])"
  using tallyPure_null_throws by simp

text \<open>
  Claim C6. \<open>tallyPure\<close> leaves every object that existed before the call exactly as it
  was, whatever the two arguments are and whether it returns or throws: the heap after
  the call, cut to the addresses of the heap before it, is the heap before it. After
  \<^verbatim>\<open>tallyPure({a:1}, "a")\<close> the result, a new object at a new address, is
  \<^verbatim>\<open>{a:2}\<close> and the original is still \<^verbatim>\<open>{a:1}\<close>.
\<close>

theorem tallyPure_heap_frame:
  "take (length h) (snd (tallyPure_heap h currentTally candidateId)) = h
   \<and> tallyPure_heap [JObj [(''a'', JNum (Fin 1))]] (Reference 0) (JStr ''a'') =
       (Inr 1, [JObj [(''a'', JNum (Fin 1))], JObj [(''a'', JNum (Fin 2))]])"
proof
  show "take (length h) (snd (tallyPure_heap h currentTally candidateId)) = h"
    by (simp add: tallyPure_heap_def Let_def take_heap_write take_copy_props
          split: option.splits jsval.splits sum.splits prod.splits)
  show "tallyPure_heap [JObj [(''a'', JNum (Fin 1))]] (Reference 0) (JStr ''a'') =
       (Inr 1, [JObj [(''a'', JNum (Fin 1))], JObj [(''a'', JNum (Fin 2))]])"
    by (simp add: tallyPure_heap_def deref_def tally_entry_def dict_read_def copy_props_def
          heap_write_def Let_def safe_int_def)
qed

theorem tallyPure_heap_frame_witness:
  "take (length [JObj [(''a'', JNum (Fin 1))], JNull])
     (snd (tallyPure_heap [JObj [(''a'', JNum (Fin 1))], JNull] (Reference 1) (JStr ''a'')))
     = [JObj [(''a'', JNum (Fin 1))], JNull]"
  by (rule conjunct1 [OF tallyPure_heap_frame])

section \<open>createElection: the election session\<close>

text \<open>
  \<^verbatim>\<open>
  export function createElection(candidates) {
    if (!Array.isArray(candidates)) candidates = [];
    const votes = {};
    const registered = new Set();
    const votersWhoVoted = new Set();
    for (const c of candidates) {
      if (c && c.id) votes[c.id] = 0;
    }
    return { registerVoter(voter) {...}, castVote(...) {...}, getResults(sortFn) {...},
             getWinner() {...} };
  }
  \<close>
  The closure's private state is the record \<open>session\<close>; every method takes the session
  and, when it writes to it, returns the new one. \<open>votes\<close> is the list of the own
  properties of the object \<^verbatim>\<open>votes\<close>. The two sets only ever receive strings
  (\<^verbatim>\<open>registerVoter\<close> adds \<^verbatim>\<open>voter.id\<close> after \<^verbatim>\<open>typeof voter.id === "string"\<close>,
  \<^verbatim>\<open>castVote\<close> adds a \<^verbatim>\<open>voterId\<close> that \<^verbatim>\<open>registered.has\<close> accepted), so they are
  lists of strings in insertion order; \<open>set_has\<close> is \<^verbatim>\<open>Set.prototype.has\<close>, which
  finds no value that is not a string, and \<open>set_add\<close> is \<^verbatim>\<open>Set.prototype.add\<close>.
\<close>

record session =
  candidates :: "jsval list"
  votes :: "(string \<times> int) list"
  registered :: "string list"
  votersWhoVoted :: "string list"

definition set_has :: "string list \<Rightarrow> jsval \<Rightarrow> bool" where
  "set_has xs v = (case v of JStr s \<Rightarrow> s \<in> set xs | _ \<Rightarrow> False)"

definition set_add :: "string list \<Rightarrow> jsval \<Rightarrow> string list" where
  "set_add xs v = (case v of JStr s \<Rightarrow> if s \<in> set xs then xs else xs @ [s] | _ \<Rightarrow> xs)"

text \<open>
  The seeding loop. \<^verbatim>\<open>votes[c.id] = 0\<close> converts \<^verbatim>\<open>c.id\<close> to a property key, which
  throws on an object that cannot be converted. For the key \<^verbatim>\<open>__proto__\<close> the
  assignment runs the setter inherited from \<^verbatim>\<open>Object.prototype\<close>, which ignores a
  number: no own property is created.
\<close>

fun seed_votes :: "jsval list \<Rightarrow> (string \<times> int) list \<Rightarrow> error + (string \<times> int) list" where
  "seed_votes [] vs = Inr vs"
| "seed_votes (c # cs) vs =
     (if truthy c \<and> truthy (get_field c ''id'')
      then (case to_string (get_field c ''id'') of
              Inl e \<Rightarrow> Inl e
            | Inr k \<Rightarrow> seed_votes cs (if k = ''__proto__'' then vs else set_prop k 0 vs))
      else seed_votes cs vs)"

definition createElection :: "jsval \<Rightarrow> error + session" where
  "createElection candidates0 =
     (let cs = (case candidates0 of JArr xs \<Rightarrow> xs | _ \<Rightarrow> [])
      in case seed_votes cs [] of
           Inl e \<Rightarrow> Inl e
         | Inr vs \<Rightarrow>
             Inr \<lparr>candidates = cs, votes = vs, registered = [],
                  votersWhoVoted = []\<rparr>)"

text \<open>
  \<^verbatim>\<open>
  registerVoter(voter) {
    if (!voter || typeof voter.id !== "string" || typeof voter.name !== "string" ||
        typeof voter.age !== "number" || voter.age < 18 || registered.has(voter.id)) {
      return false;
    }
    registered.add(voter.id);
    return true;
  }
  \<close>
  The comparison \<^verbatim>\<open>voter.age < 18\<close> is reached only when the age is a number.
\<close>

definition registerVoter :: "session \<Rightarrow> jsval \<Rightarrow> bool \<times> session" where
  "registerVoter s voter =
     (if \<not> truthy voter
         \<or> typeof (get_field voter ''id'') \<noteq> TString
         \<or> typeof (get_field voter ''name'') \<noteq> TString
         \<or> typeof (get_field voter ''age'') \<noteq> TNumber
         \<or> (case get_field voter ''age'' of JNum a \<Rightarrow> num_lt a (Fin 18) | _ \<Rightarrow> False)
         \<or> set_has (registered s) (get_field voter ''id'')
      then (False, s)
      else (True, s\<lparr>registered := set_add (registered s) (get_field voter ''id'')\<rparr>))"

text \<open>
  \<^verbatim>\<open>
  castVote(voterId, candidateId, onSuccess, onError) {
    if (typeof onSuccess !== "function") onSuccess = () => { };
    if (typeof onError !== "function") onError = () => { };
    if (!registered.has(voterId)) return onError("Voter not registered");
    if (!votes.hasOwnProperty(candidateId))
      return onError("Candidate does not exist");
    if (votersWhoVoted.has(voterId))
      return onError("Voter has already voted");
    votes[candidateId] += 1;
    votersWhoVoted.add(voterId);
    return onSuccess({ voterId, candidateId });
  }
  \<close>
  A handler is \<open>Some f\<close> when the argument is a function and \<open>None\<close> otherwise, in
  which case the substituted no-op returns \<^verbatim>\<open>undefined\<close>. Handlers are functions of their
  argument; a handler that calls back into the session is outside the model.
  \<^verbatim>\<open>votes.hasOwnProperty\<close> is a property read on \<^verbatim>\<open>votes\<close> itself: when a candidate id
  has made \<^verbatim>\<open>hasOwnProperty\<close> an own property, the read yields that candidate's count
  and calling it throws a \<^verbatim>\<open>TypeError\<close>.
\<close>

definition call_handler :: "(jsval \<Rightarrow> jsval) option \<Rightarrow> jsval \<Rightarrow> jsval" where
  "call_handler h x = (case h of Some f \<Rightarrow> f x | None \<Rightarrow> JUndefined)"

definition castVote ::
  "session \<Rightarrow> jsval \<Rightarrow> jsval \<Rightarrow> (jsval \<Rightarrow> jsval) option \<Rightarrow> (jsval \<Rightarrow> jsval) option
     \<Rightarrow> error + (jsval \<times> session)" where
  "castVote s voterId candidateId onSuccess onError =
     (if \<not> set_has (registered s) voterId
      then Inr (call_handler onError (JStr ''Voter not registered''), s)
      else if map_of (votes s) ''hasOwnProperty'' \<noteq> None then Inl TypeError
      else
        (case to_string candidateId of
           Inl e \<Rightarrow> Inl e
         | Inr k \<Rightarrow>
             (case map_of (votes s) k of
                None \<Rightarrow> Inr (call_handler onError (JStr ''Candidate does not exist''), s)
              | Some n \<Rightarrow>
                  if set_has (votersWhoVoted s) voterId
                  then Inr (call_handler onError (JStr ''Voter has already voted''), s)
                  else
                    Inr (call_handler onSuccess
                           (JObj [(''voterId'', voterId), (''candidateId'', candidateId)]),
                         s\<lparr>votes := set_prop k (n + 1) (votes s),
                           votersWhoVoted := set_add (votersWhoVoted s) voterId\<rparr>))))"


text \<open>
  \<^verbatim>\<open>
  getResults(sortFn) {
    const results = candidates.map((c) => ({
      id: c.id, name: c.name, party: c.party, votes: votes[c.id] || 0,
    }));
    if (typeof sortFn === "function") {
      return results.sort(sortFn);
    } else {
      return results.sort((a, b) => b.votes - a.votes);
    }
  }
  \<close>
  \<^verbatim>\<open>c.id\<close> throws on a \<^verbatim>\<open>null\<close> or \<^verbatim>\<open>undefined\<close> element of \<^verbatim>\<open>candidates\<close>.
  \<^verbatim>\<open>votes[c.id] || 0\<close> is the own count, 0 when the key is absent, and the truthy
  inherited member of \<^verbatim>\<open>Object.prototype\<close> (\<open>ProtoValue\<close>) when the key names one
  that is not an own property. A comparator returns a number; \<^verbatim>\<open>sort\<close> treats
  \<^verbatim>\<open>NaN\<close> as 0. \<^verbatim>\<open>Array.prototype.sort\<close> is stable, and is modelled by the stable
  insertion sort \<open>js_sort\<close>: an element moves behind a later one only when the comparator
  is positive on the pair. For a consistent comparator this is the order every
  conforming engine produces; for an inconsistent one ECMAScript leaves the order to the
  implementation and the model fixes this one.
\<close>

datatype votes_value = Count int | ProtoValue

record result_record =
  rid :: jsval
  rname :: jsval
  rparty :: jsval
  rvotes :: votes_value

definition build_result :: "(string \<times> int) list \<Rightarrow> jsval \<Rightarrow> error + result_record" where
  "build_result vs c =
     (if c = JNull \<or> c = JUndefined then Inl TypeError
      else
        (case to_string (get_field c ''id'') of
           Inl e \<Rightarrow> Inl e
         | Inr k \<Rightarrow>
             Inr \<lparr>rid = get_field c ''id'', rname = get_field c ''name'',
                  rparty = get_field c ''party'',
                  rvotes = (case dict_read vs k of
                              Own n \<Rightarrow> Count n
                            | Absent \<Rightarrow> Count 0
                            | _ \<Rightarrow> ProtoValue)\<rparr>))"

fun map_results :: "(string \<times> int) list \<Rightarrow> jsval list \<Rightarrow> error + result_record list" where
  "map_results vs [] = Inr []"
| "map_results vs (c # cs) =
     (case build_result vs c of
        Inl e \<Rightarrow> Inl e
      | Inr r \<Rightarrow> (case map_results vs cs of Inl e \<Rightarrow> Inl e | Inr rs \<Rightarrow> Inr (r # rs)))"

fun positive :: "num \<Rightarrow> bool" where
  "positive (Fin n) = (0 < n)"
| "positive NaN = False"

fun insert_sorted :: "('a \<Rightarrow> 'a \<Rightarrow> num) \<Rightarrow> 'a \<Rightarrow> 'a list \<Rightarrow> 'a list" where
  "insert_sorted cmp x [] = [x]"
| "insert_sorted cmp x (y # ys) =
     (if positive (cmp x y) then y # insert_sorted cmp x ys else x # y # ys)"

definition js_sort :: "('a \<Rightarrow> 'a \<Rightarrow> num) \<Rightarrow> 'a list \<Rightarrow> 'a list" where
  "js_sort cmp xs = foldr (insert_sorted cmp) xs []"

definition default_cmp :: "result_record \<Rightarrow> result_record \<Rightarrow> num" where
  "default_cmp a b =
     (case (rvotes b, rvotes a) of
        (Count y, Count x) \<Rightarrow> Fin (y - x)
      | _ \<Rightarrow> NaN)"

definition getResults ::
  "session \<Rightarrow> (result_record \<Rightarrow> result_record \<Rightarrow> num) option
     \<Rightarrow> error + result_record list" where
  "getResults s sortFn =
     (case map_results (votes s) (candidates s) of
        Inl e \<Rightarrow> Inl e
      | Inr results \<Rightarrow>
          (case sortFn of
             Some f \<Rightarrow> Inr (js_sort f results)
           | None \<Rightarrow> Inr (js_sort default_cmp results)))"

text \<open>
  \<^verbatim>\<open>
  getWinner() {
    const results = this.getResults();
    if (results.length === 0 || results.every((r) => r.votes === 0)) return null;
    let maxVotes = -1;
    let winner = null;
    for (const r of results) {
      if (r.votes > maxVotes) { maxVotes = r.votes; winner = r; }
    }
    return winner;
  }
  \<close>
  An inherited member of \<^verbatim>\<open>Object.prototype\<close> converts to \<^verbatim>\<open>NaN\<close>, so
  \<^verbatim>\<open>r.votes > maxVotes\<close> is false on it.
\<close>

fun scan_winner :: "result_record list \<Rightarrow> int \<Rightarrow> result_record option \<Rightarrow> result_record option" where
  "scan_winner [] maxVotes winner = winner"
| "scan_winner (r # rs) maxVotes winner =
     (case rvotes r of
        Count n \<Rightarrow> if n > maxVotes then scan_winner rs n (Some r) else scan_winner rs maxVotes winner
      | ProtoValue \<Rightarrow> scan_winner rs maxVotes winner)"

definition getWinner :: "session \<Rightarrow> error + result_record option" where
  "getWinner s =
     (case getResults s None of
        Inl e \<Rightarrow> Inl e
      | Inr results \<Rightarrow>
          if results = [] \<or> list_all (\<lambda>r. rvotes r = Count 0) results then Inr None
          else Inr (scan_winner results (- 1) None))"

text \<open>The sessions a caller can reach: created by \<open>createElection\<close>, then changed
  only by \<open>registerVoter\<close> and \<open>castVote\<close> (the two other methods write nothing).\<close>

inductive reachable :: "session \<Rightarrow> bool" where
  reach_create: "createElection c = Inr s \<Longrightarrow> reachable s"
| reach_register: "reachable s \<Longrightarrow> reachable (snd (registerVoter s v))"
| reach_cast: "reachable s \<Longrightarrow> castVote s vid cid f g = Inr (r, s') \<Longrightarrow> reachable s'"


text \<open>The invariant of the specification: the vote counts add up to the number of
  voters who voted. The two distinctness facts say that the lists represent a mapping
  and a set, so that the sum and the length are the sum of the mapping's values and the
  size of the set.\<close>

definition vote_total :: "session \<Rightarrow> int" where
  "vote_total s = sum_list (map snd (votes s))"

definition session_inv :: "session \<Rightarrow> bool" where
  "session_inv s \<longleftrightarrow>
     distinct (map fst (votes s)) \<and> distinct (votersWhoVoted s)
     \<and> vote_total s = int (length (votersWhoVoted s))"

text \<open>Objects for concrete sessions.\<close>

definition candidate_object :: "string \<Rightarrow> string \<Rightarrow> string \<Rightarrow> jsval" where
  "candidate_object i n p = JObj [(''id'', JStr i), (''name'', JStr n), (''party'', JStr p)]"

definition voter_object :: "string \<Rightarrow> string \<Rightarrow> num \<Rightarrow> jsval" where
  "voter_object i n a = JObj [(''id'', JStr i), (''name'', JStr n), (''age'', JNum a)]"

lemmas eval_defs = createElection_def registerVoter_def castVote_def getResults_def getWinner_def
  build_result_def dict_read_def js_sort_def default_cmp_def candidate_object_def
  voter_object_def
  get_field_def set_has_def set_add_def call_handler_def Let_def object_prototype_methods_def

lemma fst_set_prop:
  "map fst (set_prop k v ps) = (if k \<in> fst ` set ps then map fst ps else map fst ps @ [k])"
  by (induction ps) auto

lemma distinct_set_prop: "distinct (map fst ps) \<Longrightarrow> distinct (map fst (set_prop k v ps))"
  by (simp add: fst_set_prop)

lemma sum_set_prop_some:
  "map_of ps k = Some n \<Longrightarrow> sum_list (map snd (set_prop k v ps)) = sum_list (map snd ps) - n + (v::int)"
  by (induction ps) (auto split: if_splits)

lemma snd_set_prop: "set (map snd (set_prop k v ps)) \<subseteq> insert v (set (map snd ps))"
  by (induction ps) auto

lemma seed_votes_distinct:
  "seed_votes cs vs = Inr vs' \<Longrightarrow> distinct (map fst vs) \<Longrightarrow> distinct (map fst vs')"
  by (induction cs arbitrary: vs) (auto split: if_splits sum.splits simp: distinct_set_prop)

lemma seed_votes_values:
  "seed_votes cs vs = Inr vs' \<Longrightarrow> set (map snd vs') \<subseteq> insert 0 (set (map snd vs))"
proof (induction cs arbitrary: vs)
  case Nil
  then show ?case by auto
next
  case (Cons c cs)
  show ?case
  proof (cases "truthy c \<and> truthy (get_field c ''id'')")
    case False
    then have "seed_votes cs vs = Inr vs'" using Cons.prems by auto
    from Cons.IH [OF this] show ?thesis .
  next
    case True
    then obtain k where
      sv: "seed_votes cs (if k = ''__proto__'' then vs else set_prop k 0 vs) = Inr vs'"
      using Cons.prems by (auto split: sum.splits)
    show ?thesis
    proof (cases "k = ''__proto__''")
      case True
      with Cons.IH [OF sv] show ?thesis by simp
    next
      case False
      with Cons.IH [OF sv] have "set (map snd vs') \<subseteq> insert 0 (set (map snd (set_prop k 0 vs)))"
        by simp
      with snd_set_prop [of k 0 vs] show ?thesis by blast
    qed
  qed
qed

lemma seed_votes_zero:
  "seed_votes cs [] = Inr vs \<Longrightarrow> \<forall>p \<in> set vs. snd p = 0"
  using seed_votes_values [of cs "[]" vs] by auto

lemma sum_list_zero: "\<forall>p \<in> set ps. snd p = (0::int) \<Longrightarrow> sum_list (map snd ps) = 0"
  by (induction ps) auto

lemma createElection_inv:
  assumes "createElection c = Inr s0"
  shows "(\<forall>p \<in> set (votes s0). snd p = 0) \<and> votersWhoVoted s0 = [] \<and> session_inv s0"
proof -
  from assms obtain cs vs where sv: "seed_votes cs [] = Inr vs"
    and s0: "s0 = \<lparr>candidates = cs, votes = vs, registered = [], votersWhoVoted = []\<rparr>"
    by (auto simp: createElection_def Let_def split: sum.splits)
  have d: "distinct (map fst vs)" using seed_votes_distinct [OF sv] by simp
  have z: "\<forall>p \<in> set vs. snd p = 0" using seed_votes_zero [OF sv] .
  show ?thesis using d z sum_list_zero [OF z] by (simp add: s0 session_inv_def vote_total_def)
qed

lemma registerVoter_inv: "session_inv s \<Longrightarrow> session_inv (snd (registerVoter s v))"
  by (simp add: registerVoter_def session_inv_def vote_total_def)

lemma castVote_inv:
  assumes "session_inv s" and "castVote s vid cid f g = Inr (r, s')"
  shows "session_inv s'"
proof (cases "s' = s")
  case True
  with assms show ?thesis by simp
next
  case False
  with assms(2) obtain k n v where k: "map_of (votes s) k = Some n"
    and nv: "\<not> set_has (votersWhoVoted s) vid" and reg: "set_has (registered s) vid"
    and s': "s' = s\<lparr>votes := set_prop k (n + 1) (votes s),
                    votersWhoVoted := set_add (votersWhoVoted s) vid\<rparr>"
    by (auto simp: castVote_def split: if_splits sum.splits option.splits)
  from reg obtain v where v: "vid = JStr v" by (auto simp: set_has_def split: jsval.splits)
  with nv have add: "set_add (votersWhoVoted s) vid = votersWhoVoted s @ [v]"
    and fresh: "v \<notin> set (votersWhoVoted s)"
    by (auto simp: set_has_def set_add_def)
  show ?thesis
    using assms(1) fresh
    by (simp add: s' add session_inv_def vote_total_def distinct_set_prop sum_set_prop_some [OF k])
qed

lemma reachable_inv: "reachable s \<Longrightarrow> session_inv s"
proof (induction rule: reachable.induct)
  case (reach_create c s)
  then show ?case using createElection_inv by blast
next
  case (reach_register s v)
  then show ?case by (simp add: registerVoter_inv)
next
  case (reach_cast s vid cid f g r s')
  then show ?case using castVote_inv by blast
qed



text \<open>What \<open>castVote\<close> does in a session where no candidate is called
  \<^verbatim>\<open>hasOwnProperty\<close>: the three checks in order, each error path leaving the session
  as it was, and the vote recorded otherwise.\<close>

lemma castVote_spec:
  assumes "map_of (votes s) ''hasOwnProperty'' = None" and "to_string candidateId = Inr k"
  shows "castVote s voterId candidateId onSuccess onError =
     (if \<not> set_has (registered s) voterId
      then Inr (call_handler onError (JStr ''Voter not registered''), s)
      else if map_of (votes s) k = None
      then Inr (call_handler onError (JStr ''Candidate does not exist''), s)
      else if set_has (votersWhoVoted s) voterId
      then Inr (call_handler onError (JStr ''Voter has already voted''), s)
      else Inr (call_handler onSuccess
                  (JObj [(''voterId'', voterId), (''candidateId'', candidateId)]),
                s\<lparr>votes := set_prop k (the (map_of (votes s) k) + 1) (votes s),
                  votersWhoVoted := set_add (votersWhoVoted s) voterId\<rparr>))"
  using assms by (auto simp: castVote_def split: option.splits)

lemma castVote_error_keeps_session:
  "castVote s voterId candidateId onSuccess onError = Inr (r, s') \<Longrightarrow>
   \<not> (set_has (registered s) voterId \<and> \<not> set_has (votersWhoVoted s) voterId
      \<and> (\<exists>k. to_string candidateId = Inr k \<and> map_of (votes s) k \<noteq> None)) \<Longrightarrow> s' = s"
  by (auto simp: castVote_def split: if_splits sum.splits option.splits)

text \<open>
  Claim C1 (the code breaks it). \<open>castVote\<close> is specified to run its three checks and
  then record the vote, returning what the invoked handler returns, in every session.
  In the session created from the one candidate \<^verbatim>\<open>{id: "hasOwnProperty", ...}\<close>, the
  registered voter V1 votes for that candidate: \<open>castVote\<close> throws a \<^verbatim>\<open>TypeError\<close>
  at \<^verbatim>\<open>votes.hasOwnProperty(candidateId)\<close> and invokes neither handler, whatever the
  handlers are. In every session without such a candidate \<open>castVote\<close> behaves as
  specified (lemma \<open>castVote_spec\<close>).
\<close>

theorem castVote_shadowed_hasOwnProperty:
  "(case createElection (JArr [candidate_object ''hasOwnProperty'' ''Ram'' ''Janata'']) of
      Inl e \<Rightarrow> None
    | Inr s0 \<Rightarrow>
        Some (case registerVoter s0 (voter_object ''V1'' ''Mohan'' (Fin 25)) of
                (ok, s1) \<Rightarrow>
                  (ok, castVote s1 (JStr ''V1'') (JStr ''hasOwnProperty'') onSuccess onError)))
   = Some (True, Inl TypeError)"
  by (simp add: eval_defs)

theorem castVote_shadowed_hasOwnProperty_witness:
  "(case createElection (JArr [candidate_object ''hasOwnProperty'' ''Ram'' ''Janata'']) of
      Inl e \<Rightarrow> None
    | Inr s0 \<Rightarrow>
        Some (case registerVoter s0 (voter_object ''V1'' ''Mohan'' (Fin 25)) of
                (ok, s1) \<Rightarrow>
                  (ok, castVote s1 (JStr ''V1'') (JStr ''hasOwnProperty'')
                         (Some (\<lambda>r. r)) (Some (\<lambda>e. e)))))
   = Some (True, Inl TypeError)"
  by (rule castVote_shadowed_hasOwnProperty)

text \<open>
  Claim C2. The sum of the vote counts equals the number of voters who voted: in the
  session \<open>createElection\<close> returns (where every count is 0 and no voter has voted),
  after \<open>registerVoter\<close> and after \<open>castVote\<close> from any session where it holds, and so
  in every reachable session. \<open>getResults\<close> and \<open>getWinner\<close> return no session: they
  write nothing.
\<close>

theorem session_invariant:
  "(createElection c = Inr s0 \<longrightarrow>
      (\<forall>p \<in> set (votes s0). snd p = 0) \<and> votersWhoVoted s0 = [] \<and> session_inv s0)
   \<and> (session_inv s \<longrightarrow> session_inv (snd (registerVoter s v)))
   \<and> (session_inv s \<longrightarrow> castVote s vid cid f g = Inr (r, s') \<longrightarrow> session_inv s')
   \<and> (reachable s \<longrightarrow> session_inv s)"
  using createElection_inv registerVoter_inv castVote_inv reachable_inv by blast

theorem session_invariant_witness:
  "reachable \<lparr>candidates = [candidate_object ''C1'' ''Ram'' ''Janata'',
                             candidate_object ''C2'' ''Sita'' ''Lok''],
              votes = [(''C1'', 1), (''C2'', 0)], registered = [''V1''],
              votersWhoVoted = [''V1'']\<rparr>
   \<and> session_inv \<lparr>candidates = [candidate_object ''C1'' ''Ram'' ''Janata'',
                                candidate_object ''C2'' ''Sita'' ''Lok''],
              votes = [(''C1'', 1), (''C2'', 0)], registered = [''V1''],
              votersWhoVoted = [''V1'']\<rparr>"
proof -
  let ?cs = "[candidate_object ''C1'' ''Ram'' ''Janata'', candidate_object ''C2'' ''Sita'' ''Lok'']"
  let ?s0 = "\<lparr>candidates = ?cs, votes = [(''C1'', 0), (''C2'', 0)], registered = [],
              votersWhoVoted = []\<rparr>"
  let ?s1 = "\<lparr>candidates = ?cs, votes = [(''C1'', 0), (''C2'', 0)], registered = [''V1''],
              votersWhoVoted = []\<rparr>"
  let ?s2 = "\<lparr>candidates = ?cs, votes = [(''C1'', 1), (''C2'', 0)], registered = [''V1''],
              votersWhoVoted = [''V1'']\<rparr>"
  have "createElection (JArr ?cs) = Inr ?s0"
    by (simp add: eval_defs)
  then have r0: "reachable ?s0" by (rule reach_create)
  have "snd (registerVoter ?s0 (voter_object ''V1'' ''Mohan'' (Fin 25))) = ?s1"
    by (simp add: eval_defs)
  with reach_register [OF r0, of "voter_object ''V1'' ''Mohan'' (Fin 25)"]
  have r1: "reachable ?s1" by simp
  have "castVote ?s1 (JStr ''V1'') (JStr ''C1'') None None = Inr (JUndefined, ?s2)"
    by (simp add: eval_defs)
  with r1 have r2: "reachable ?s2" by (rule reach_cast)
  with session_invariant [of c s0 ?s2] show ?thesis by simp
qed


text \<open>
  The voters of claim C3. \<open>age_at_least 18\<close> is the claim's wording, a numeric age
  that is at least 18. \<open>age_not_below 18\<close> is what the guard of the code tests, a
  numeric age that is not less than 18: the two differ at \<^verbatim>\<open>NaN\<close> and nowhere else.
  \<open>passes_guard\<close> collects the checks of the guard that do not depend on the session.
\<close>

definition age_at_least :: "int \<Rightarrow> jsval \<Rightarrow> bool" where
  "age_at_least n v = (case v of JNum (Fin a) \<Rightarrow> n \<le> a | _ \<Rightarrow> False)"

definition age_not_below :: "int \<Rightarrow> jsval \<Rightarrow> bool" where
  "age_not_below n v = (case v of JNum a \<Rightarrow> \<not> num_lt a (Fin n) | _ \<Rightarrow> False)"

definition passes_guard :: "jsval \<Rightarrow> bool" where
  "passes_guard voter \<longleftrightarrow>
     (case voter of JObj ps \<Rightarrow> True | _ \<Rightarrow> False)
     \<and> typeof (get_field voter ''id'') = TString
     \<and> typeof (get_field voter ''name'') = TString
     \<and> age_not_below 18 (get_field voter ''age'')"

lemma age_not_below_iff:
  "age_not_below n v \<longleftrightarrow> age_at_least n v \<or> v = JNum NaN"
  by (auto simp: age_not_below_def age_at_least_def split: jsval.splits num.splits)

lemma typeof_string: "typeof v = TString \<longleftrightarrow> (\<exists>s. v = JStr s)"
  by (cases v) simp_all

lemma typeof_number: "typeof v = TNumber \<longleftrightarrow> (\<exists>n. v = JNum n)"
  by (cases v) simp_all

lemma get_field_non_object: "(case v of JObj ps \<Rightarrow> False | _ \<Rightarrow> True) \<Longrightarrow> get_field v k = JUndefined"
  by (cases v) (simp_all add: get_field_def)

lemma registerVoter_accepts:
  assumes "passes_guard voter" and "get_field voter ''id'' = JStr i"
    and "i \<notin> set (registered s)"
  shows "registerVoter s voter = (True, s\<lparr>registered := registered s @ [i]\<rparr>)"
proof -
  from assms(1) obtain ps where v: "voter = JObj ps"
    by (auto simp: passes_guard_def split: jsval.splits)
  from assms(1) obtain a where a: "get_field voter ''age'' = JNum a" "\<not> num_lt a (Fin 18)"
    by (auto simp: passes_guard_def age_not_below_def split: jsval.splits)
  from assms(1) have n: "typeof (get_field voter ''name'') = TString"
    by (simp add: passes_guard_def)
  show ?thesis
    using assms(2,3) a n by (simp add: registerVoter_def v set_has_def set_add_def)
qed

lemma registerVoter_rejects:
  assumes "\<not> (passes_guard voter \<and> (\<exists>i. get_field voter ''id'' = JStr i \<and> i \<notin> set (registered s)))"
  shows "registerVoter s voter = (False, s)"
proof (cases "fst (registerVoter s voter)")
  case False
  then show ?thesis by (auto simp: registerVoter_def split: if_splits)
next
  case True
  then have t: "truthy voter" and i: "typeof (get_field voter ''id'') = TString"
    and n: "typeof (get_field voter ''name'') = TString"
    and a: "typeof (get_field voter ''age'') = TNumber"
    and lt: "\<not> (case get_field voter ''age'' of JNum a \<Rightarrow> num_lt a (Fin 18) | _ \<Rightarrow> False)"
    and r: "\<not> set_has (registered s) (get_field voter ''id'')"
    by (auto simp: registerVoter_def split: if_splits)
  from i have obj: "case voter of JObj ps \<Rightarrow> True | _ \<Rightarrow> False"
    using get_field_non_object [of voter "''id''"] by (cases voter) auto
  from a lt have "age_not_below 18 (get_field voter ''age'')"
    by (auto simp: age_not_below_def typeof_number)
  with obj i n have "passes_guard voter" by (simp add: passes_guard_def)
  moreover from i r have "\<exists>i. get_field voter ''id'' = JStr i \<and> i \<notin> set (registered s)"
    by (auto simp: typeof_string set_has_def)
  ultimately show ?thesis using assms by blast
qed

text \<open>
  What \<open>registerVoter\<close> does on every input: it returns true and appends the voter's
  id to the registered set exactly when the voter passes the guard and the id is not
  registered yet; in every other case, re-registration included, it returns false and the
  session is unchanged.
\<close>

lemma registerVoter_behaviour:
  "(passes_guard voter \<and> get_field voter ''id'' = JStr i \<and> i \<notin> set (registered s)
      \<longrightarrow> registerVoter s voter = (True, s\<lparr>registered := registered s @ [i]\<rparr>))
   \<and> (\<not> (passes_guard voter
           \<and> (\<exists>j. get_field voter ''id'' = JStr j \<and> j \<notin> set (registered s)))
      \<longrightarrow> registerVoter s voter = (False, s))"
  using registerVoter_accepts registerVoter_rejects by blast

lemmas eval_defs2 = eval_defs passes_guard_def age_not_below_def age_at_least_def

lemma registerVoter_behaviour_example:
  "registerVoter \<lparr>candidates = [], votes = [], registered = [''V2''], votersWhoVoted = []\<rparr>
     (voter_object ''V1'' ''Mohan'' (Fin 18)) =
     (True, \<lparr>candidates = [], votes = [], registered = [''V2'', ''V1''], votersWhoVoted = []\<rparr>)
   \<and> registerVoter \<lparr>candidates = [], votes = [], registered = [''V2''], votersWhoVoted = []\<rparr>
     (voter_object ''V2'' ''Sohan'' (Fin 40)) =
     (False, \<lparr>candidates = [], votes = [], registered = [''V2''], votersWhoVoted = []\<rparr>)
   \<and> registerVoter \<lparr>candidates = [], votes = [], registered = [''V2''], votersWhoVoted = []\<rparr>
     (voter_object ''V3'' ''Rohan'' (Fin 17)) =
     (False, \<lparr>candidates = [], votes = [], registered = [''V2''], votersWhoVoted = []\<rparr>)"
proof -
  let ?s = "\<lparr>candidates = [], votes = [], registered = [''V2''], votersWhoVoted = []\<rparr>"
  have w1: "passes_guard (voter_object ''V1'' ''Mohan'' (Fin 18))"
    by (simp add: eval_defs2)
  have i1: "get_field (voter_object ''V1'' ''Mohan'' (Fin 18)) ''id'' = JStr ''V1''"
    by (simp add: eval_defs2)
  have i2: "get_field (voter_object ''V2'' ''Sohan'' (Fin 40)) ''id'' = JStr ''V2''"
    by (simp add: eval_defs2)
  have w3: "\<not> passes_guard (voter_object ''V3'' ''Rohan'' (Fin 17))"
    by (simp add: eval_defs2)
  from registerVoter_behaviour [of "voter_object ''V1'' ''Mohan'' (Fin 18)" "''V1''" ?s] w1 i1
  have a: "registerVoter ?s (voter_object ''V1'' ''Mohan'' (Fin 18)) =
      (True, ?s\<lparr>registered := registered ?s @ [''V1'']\<rparr>)"
    by simp
  from registerVoter_behaviour [of "voter_object ''V2'' ''Sohan'' (Fin 40)" _ ?s] i2
  have b: "registerVoter ?s (voter_object ''V2'' ''Sohan'' (Fin 40)) = (False, ?s)"
    by simp
  from registerVoter_behaviour [of "voter_object ''V3'' ''Rohan'' (Fin 17)" _ ?s] w3
  have c: "registerVoter ?s (voter_object ''V3'' ''Rohan'' (Fin 17)) = (False, ?s)"
    by simp
  from a b c show ?thesis by simp
qed

text \<open>
  Claim C3 (the code breaks it). \<open>registerVoter\<close> is specified to accept a voter
  only with a numeric age of at least 18 and to return false on any violation. The voter
  \<^verbatim>\<open>{id: "V1", name: "Mohan", age: NaN}\<close> has an age of type number that is not at
  least 18, and the code registers it in every session that has no voter V1 yet,
  because \<^verbatim>\<open>NaN < 18\<close> is false. On every other input the code does what the claim
  says (lemmas \<open>registerVoter_behaviour\<close> and \<open>age_not_below_iff\<close>).
\<close>

theorem registerVoter_accepts_NaN_age:
  "registerVoter s (voter_object ''V1'' ''Mohan'' NaN) =
     (if ''V1'' \<in> set (registered s) then (False, s)
      else (True, s\<lparr>registered := registered s @ [''V1'']\<rparr>))
   \<and> \<not> age_at_least 18 (get_field (voter_object ''V1'' ''Mohan'' NaN) ''age'')"
  by (simp add: eval_defs2)

theorem registerVoter_accepts_NaN_age_witness:
  "registerVoter \<lparr>candidates = [], votes = [], registered = [], votersWhoVoted = []\<rparr>
     (voter_object ''V1'' ''Mohan'' NaN) =
     (True, \<lparr>candidates = [], votes = [], registered = [''V1''], votersWhoVoted = []\<rparr>)"
  using registerVoter_accepts_NaN_age
    [of "\<lparr>candidates = [], votes = [], registered = [], votersWhoVoted = []\<rparr>"]
  by simp

text \<open>
  What \<open>getResults\<close> and \<open>getWinner\<close> do in a reachable session whose candidate
  list has no \<^verbatim>\<open>null\<close> or \<^verbatim>\<open>undefined\<close> element and no candidate whose key is
  \<^verbatim>\<open>__proto__\<close> (\<open>plain_candidates\<close>). \<open>record_of\<close> is the specified record of a
  candidate: its three fields and its count, 0 when the key has none. Every record
  then carries a count (\<open>counted\<close>), the default order is the stable sort by
  descending count, and the winner is the first record, in candidate order, whose
  count is the greatest.
\<close>

definition count_of :: "result_record \<Rightarrow> int" where
  "count_of r = (case rvotes r of Count n \<Rightarrow> n | ProtoValue \<Rightarrow> 0)"

definition counted :: "result_record \<Rightarrow> bool" where
  "counted r = (case rvotes r of Count n \<Rightarrow> True | ProtoValue \<Rightarrow> False)"

lemma rvotes_counted: "counted r \<Longrightarrow> rvotes r = Count (count_of r)"
  by (simp add: counted_def count_of_def split: votes_value.splits)

lemma insert_sorted_default:
  "counted x \<Longrightarrow> \<forall>y \<in> set ys. counted y \<Longrightarrow>
   insert_sorted default_cmp x ys = insort_key (\<lambda>r. - count_of r) x ys"
  by (induction ys) (auto simp: rvotes_counted default_cmp_def)

lemma set_insert_sorted: "set (insert_sorted cmp x ys) = insert x (set ys)"
  by (induction ys) auto

lemma set_js_sort: "set (js_sort cmp xs) = set xs"
  by (induction xs) (simp_all add: js_sort_def set_insert_sorted)

lemma js_sort_default:
  "\<forall>x \<in> set xs. counted x \<Longrightarrow> js_sort default_cmp xs = sort_key (\<lambda>r. - count_of r) xs"
proof (induction xs)
  case Nil
  then show ?case by (simp add: js_sort_def)
next
  case (Cons x xs)
  then have "js_sort default_cmp xs = sort_key (\<lambda>r. - count_of r) xs" by simp
  moreover have "\<forall>y \<in> set (js_sort default_cmp xs). counted y"
    using Cons.prems by (simp add: set_js_sort)
  ultimately show ?case
    using Cons.prems insert_sorted_default [of x "js_sort default_cmp xs"]
    by (simp add: js_sort_def)
qed

lemma mset_insert_sorted: "mset (insert_sorted cmp x ys) = add_mset x (mset ys)"
  by (induction ys) auto

lemma mset_js_sort: "mset (js_sort cmp xs) = mset xs"
  by (induction xs) (simp_all add: js_sort_def mset_insert_sorted)

lemma hd_insort_key:
  "hd (insort_key f x ys) = (if ys = [] \<or> f x \<le> f (hd ys) then x else hd ys)"
  by (cases ys) auto

lemma sort_key_Nil_iff: "sort_key f xs = [] \<longleftrightarrow> xs = []"
  using length_sort [of f xs] by (auto simp del: length_sort)


lemma find_min_hd_sort_key:
  "xs \<noteq> [] \<Longrightarrow> find (\<lambda>z. \<forall>y \<in> set xs. f z \<le> f y) xs = Some (hd (sort_key f xs))"
proof (induction xs)
  case Nil
  then show ?case by simp
next
  case (Cons x xs)
  show ?case
  proof (cases "xs = []")
    case True
    then show ?thesis by simp
  next
    case False
    let ?h = "hd (sort_key f xs)"
    from Cons.IH [OF False] have h: "find (\<lambda>z. \<forall>y \<in> set xs. f z \<le> f y) xs = Some ?h" .
    then have hmin: "\<forall>y \<in> set xs. f ?h \<le> f y" and hin: "?h \<in> set xs"
      by (auto simp: find_Some_iff in_set_conv_nth)
    have ne: "sort_key f xs \<noteq> []" using False by (simp add: sort_key_Nil_iff)
    show ?thesis
    proof (cases "f x \<le> f ?h")
      case True
      with hmin have "\<forall>y \<in> set (x # xs). f x \<le> f y" by auto
      then show ?thesis using True ne by (simp add: hd_insort_key)
    next
      case False
      then have lt: "f ?h < f x" by simp
      have nx: "\<not> (\<forall>y \<in> set (x # xs). f x \<le> f y)"
      proof
        assume "\<forall>y \<in> set (x # xs). f x \<le> f y"
        with hin have "f x \<le> f ?h" by simp
        with lt show False by simp
      qed
      have "find (\<lambda>z. \<forall>y \<in> set (x # xs). f z \<le> f y) xs
            = find (\<lambda>z. \<forall>y \<in> set xs. f z \<le> f y) xs"
      proof (rule find_cong [OF refl])
        fix z assume "z \<in> set xs"
        show "(\<forall>y \<in> set (x # xs). f z \<le> f y) = (\<forall>y \<in> set xs. f z \<le> f y)"
        proof
          assume "\<forall>y \<in> set (x # xs). f z \<le> f y"
          then show "\<forall>y \<in> set xs. f z \<le> f y" by simp
        next
          assume a: "\<forall>y \<in> set xs. f z \<le> f y"
          with hin have "f z \<le> f ?h" by blast
          with lt have "f z \<le> f x" by simp
          with a show "\<forall>y \<in> set (x # xs). f z \<le> f y" by simp
        qed
      qed
      then have "find (\<lambda>z. \<forall>y \<in> set (x # xs). f z \<le> f y) (x # xs) = Some ?h"
        using nx h by (simp only: find.simps if_False)
      moreover have "hd (sort_key f (x # xs)) = ?h"
        using False ne by (simp add: hd_insort_key)
      ultimately show ?thesis by (simp only:)
    qed
  qed
qed

lemma scan_winner_keep:
  "\<forall>r \<in> set rs. counted r \<and> count_of r \<le> m \<Longrightarrow> scan_winner rs m w = w"
  by (induction rs arbitrary: m w) (auto simp: counted_def count_of_def split: votes_value.splits)

lemma scan_winner_head:
  assumes "counted r" and "m < count_of r"
    and "\<forall>y \<in> set rs. counted y \<and> count_of y \<le> count_of r"
  shows "scan_winner (r # rs) m w = Some r"
  using assms scan_winner_keep [of rs "count_of r" "Some r"]
  by (auto simp: counted_def count_of_def split: votes_value.splits)


definition first_with_most_votes :: "result_record list \<Rightarrow> result_record option" where
  "first_with_most_votes rs = find (\<lambda>r. \<forall>y \<in> set rs. count_of y \<le> count_of r) rs"

lemma first_with_most_votes_sorted:
  "rs \<noteq> [] \<Longrightarrow> first_with_most_votes rs = Some (hd (sort_key (\<lambda>r. - count_of r) rs))"
  using find_min_hd_sort_key [of rs "\<lambda>r. - count_of r"]
  by (simp add: first_with_most_votes_def)

lemma all_zero_sorted:
  assumes "\<forall>r \<in> set rs. counted r"
  shows "list_all (\<lambda>r. rvotes r = Count 0) (sort_key f rs) \<longleftrightarrow> (\<forall>r \<in> set rs. count_of r = 0)"
proof -
  have "rvotes r = Count 0 \<longleftrightarrow> count_of r = 0" if "r \<in> set rs" for r
    using assms that rvotes_counted [of r] by auto
  then show ?thesis by (simp add: list_all_iff)
qed

lemma winner_of_sorted:
  assumes c: "\<forall>r \<in> set rs. counted r \<and> 0 \<le> count_of r"
  shows "(if js_sort default_cmp rs = [] \<or> list_all (\<lambda>r. rvotes r = Count 0) (js_sort default_cmp rs)
          then None else scan_winner (js_sort default_cmp rs) (- 1) None)
       = (if rs = [] \<or> (\<forall>r \<in> set rs. count_of r = 0) then None
          else first_with_most_votes rs)"
proof (cases "rs = []")
  case True
  then show ?thesis by (simp add: js_sort_def)
next
  case False
  let ?ss = "sort_key (\<lambda>r. - count_of r) rs"
  from c have s: "js_sort default_cmp rs = ?ss" by (simp add: js_sort_default)
  have ne: "?ss \<noteq> []" using False by (simp add: sort_key_Nil_iff)
  from c have zero: "list_all (\<lambda>r. rvotes r = Count 0) ?ss \<longleftrightarrow> (\<forall>r \<in> set rs. count_of r = 0)"
    by (simp add: all_zero_sorted)
  have fm: "first_with_most_votes rs = Some (hd ?ss)"
    using False by (rule first_with_most_votes_sorted)
  then have hmax: "\<forall>y \<in> set rs. count_of y \<le> count_of (hd ?ss)"
    unfolding first_with_most_votes_def find_Some_iff by metis
  obtain h t where ht: "?ss = h # t" using ne by (cases ?ss) auto
  have "set ?ss = set rs" by (rule set_sort)
  then have set: "set rs = insert h (set t)" by (simp add: ht)
  have hh: "hd ?ss = h" by (simp add: ht)
  have "scan_winner (h # t) (- 1) None = Some h"
  proof (rule scan_winner_head)
    show "counted h" using c set by blast
    have "0 \<le> count_of h" using c set by blast
    then show "- 1 < count_of h" by simp
    show "\<forall>y \<in> set t. counted y \<and> count_of y \<le> count_of h"
      using c set hmax hh by auto
  qed
  then have "scan_winner ?ss (- 1) None = first_with_most_votes rs"
    by (simp add: ht fm)
  then show ?thesis using False ne zero by (simp add: s)
qed

definition candidate_key :: "jsval \<Rightarrow> string" where
  "candidate_key c = (case to_string (get_field c ''id'') of Inr k \<Rightarrow> k | Inl e \<Rightarrow> [])"

definition record_of :: "(string \<times> int) list \<Rightarrow> jsval \<Rightarrow> result_record" where
  "record_of vs c =
     \<lparr>rid = get_field c ''id'', rname = get_field c ''name'', rparty = get_field c ''party'',
      rvotes = Count (case map_of vs (candidate_key c) of Some n \<Rightarrow> n | None \<Rightarrow> 0)\<rparr>"

definition plain_candidates :: "session \<Rightarrow> bool" where
  "plain_candidates s \<longleftrightarrow>
     (\<forall>c \<in> set (candidates s).
        c \<noteq> JNull \<and> c \<noteq> JUndefined \<and> to_string (get_field c ''id'') \<noteq> Inr ''__proto__'')"

definition seeded :: "jsval list \<Rightarrow> (string \<times> int) list \<Rightarrow> bool" where
  "seeded cs vs \<longleftrightarrow>
     (\<forall>c \<in> set cs. truthy c \<and> truthy (get_field c ''id'') \<longrightarrow>
        (\<exists>k. to_string (get_field c ''id'') = Inr k
           \<and> (k = ''__proto__'' \<or> map_of vs k \<noteq> None)))"

definition counts_inv :: "session \<Rightarrow> bool" where
  "counts_inv s \<longleftrightarrow> (\<forall>p \<in> set (votes s). 0 \<le> snd p) \<and> seeded (candidates s) (votes s)"

lemma falsy_to_string:
  "\<not> truthy v \<Longrightarrow>
   \<exists>k. to_string v = Inr k \<and> k \<notin> set (''__proto__'' # object_prototype_methods)"
proof (cases v)
  case (JNum n)
  assume "\<not> truthy v"
  with JNum show ?thesis
    by (cases n) (auto simp: show_int_def show_nat.simps digit_char_def object_prototype_methods_def)
qed (auto simp: object_prototype_methods_def)

lemma get_field_falsy: "\<not> truthy c \<Longrightarrow> get_field c k = JUndefined"
  by (cases c) (simp_all add: get_field_def)

lemma seed_votes_keys:
  "seed_votes cs vs = Inr vs' \<Longrightarrow> map_of vs k \<noteq> None \<Longrightarrow> map_of vs' k \<noteq> None"
proof (induction cs arbitrary: vs)
  case Nil
  then show ?case by simp
next
  case (Cons c cs)
  show ?case
  proof (cases "truthy c \<and> truthy (get_field c ''id'')")
    case False
    then have "seed_votes cs vs = Inr vs'" using Cons.prems by auto
    from Cons.IH [OF this Cons.prems(2)] show ?thesis .
  next
    case True
    then obtain j where
      sv: "seed_votes cs (if j = ''__proto__'' then vs else set_prop j 0 vs) = Inr vs'"
      using Cons.prems by (auto split: sum.splits)
    have "map_of (if j = ''__proto__'' then vs else set_prop j 0 vs) k \<noteq> None"
      using Cons.prems(2) by (simp add: map_of_set_prop)
    from Cons.IH [OF sv this] show ?thesis .
  qed
qed

lemma seed_votes_seeded: "seed_votes cs vs = Inr vs' \<Longrightarrow> seeded cs vs'"
proof (induction cs arbitrary: vs)
  case Nil
  then show ?case by (simp add: seeded_def)
next
  case (Cons c cs)
  show ?case
  proof (cases "truthy c \<and> truthy (get_field c ''id'')")
    case False
    then have "seed_votes cs vs = Inr vs'" using Cons.prems by auto
    from Cons.IH [OF this] False show ?thesis by (auto simp: seeded_def)
  next
    case True
    then obtain j where j: "to_string (get_field c ''id'') = Inr j" and
      sv: "seed_votes cs (if j = ''__proto__'' then vs else set_prop j 0 vs) = Inr vs'"
      using Cons.prems by (auto split: sum.splits)
    have "j = ''__proto__'' \<or> map_of vs' j \<noteq> None"
    proof (cases "j = ''__proto__''")
      case True
      then show ?thesis by simp
    next
      case False
      then have "map_of (if j = ''__proto__'' then vs else set_prop j 0 vs) j \<noteq> None"
        by (simp add: map_of_set_prop)
      from seed_votes_keys [OF sv this] show ?thesis by simp
    qed
    with Cons.IH [OF sv] j show ?thesis by (auto simp: seeded_def)
  qed
qed

lemma set_prop_nonneg:
  "\<forall>p \<in> set ps. (0::int) \<le> snd p \<Longrightarrow> 0 \<le> v \<Longrightarrow> \<forall>p \<in> set (set_prop k v ps). 0 \<le> snd p"
  by (induction ps) auto

lemma seeded_mono:
  assumes "seeded cs vs" and "\<And>k. map_of vs k \<noteq> None \<Longrightarrow> map_of vs' k \<noteq> None"
  shows "seeded cs vs'"
  unfolding seeded_def
proof (intro ballI impI)
  fix c assume "c \<in> set cs" and "truthy c \<and> truthy (get_field c ''id'')"
  with assms(1) obtain k where k: "to_string (get_field c ''id'') = Inr k"
    and "k = ''__proto__'' \<or> map_of vs k \<noteq> None"
    unfolding seeded_def by blast
  then have "k = ''__proto__'' \<or> map_of vs' k \<noteq> None" using assms(2) by blast
  with k show "\<exists>k. to_string (get_field c ''id'') = Inr k
                 \<and> (k = ''__proto__'' \<or> map_of vs' k \<noteq> None)" by blast
qed

lemma createElection_counts_inv: "createElection c = Inr s \<Longrightarrow> counts_inv s"
proof -
  assume a: "createElection c = Inr s"
  then obtain cs vs where sv: "seed_votes cs [] = Inr vs"
    and s: "s = \<lparr>candidates = cs, votes = vs, registered = [], votersWhoVoted = []\<rparr>"
    by (auto simp: createElection_def Let_def split: sum.splits)
  from seed_votes_zero [OF sv] seed_votes_seeded [OF sv] show ?thesis
    by (auto simp: counts_inv_def s)
qed

lemma registerVoter_counts_inv: "counts_inv s \<Longrightarrow> counts_inv (snd (registerVoter s v))"
  by (simp add: registerVoter_def counts_inv_def)

lemma castVote_counts_inv:
  assumes "counts_inv s" and "castVote s vid cid f g = Inr (r, s')"
  shows "counts_inv s'"
proof (cases "s' = s")
  case True
  with assms show ?thesis by simp
next
  case False
  with assms(2) obtain k n where k: "map_of (votes s) k = Some n"
    and s': "s' = s\<lparr>votes := set_prop k (n + 1) (votes s),
                    votersWhoVoted := set_add (votersWhoVoted s) vid\<rparr>"
    by (auto simp: castVote_def split: if_splits sum.splits option.splits)
  from k have "(k, n) \<in> set (votes s)" by (rule map_of_SomeD)
  with assms(1) have n: "0 \<le> n" by (auto simp: counts_inv_def)
  have "\<forall>p \<in> set (set_prop k (n + 1) (votes s)). 0 \<le> snd p"
    using assms(1) n by (intro set_prop_nonneg) (simp_all add: counts_inv_def)
  moreover have "seeded (candidates s) (set_prop k (n + 1) (votes s))"
  proof (rule seeded_mono)
    show "seeded (candidates s) (votes s)" using assms(1) by (simp add: counts_inv_def)
    show "map_of (set_prop k (n + 1) (votes s)) j \<noteq> None" if "map_of (votes s) j \<noteq> None" for j
      using that by (simp add: map_of_set_prop)
  qed
  ultimately show ?thesis by (simp add: s' counts_inv_def)
qed

lemma reachable_counts_inv: "reachable s \<Longrightarrow> counts_inv s"
proof (induction rule: reachable.induct)
  case (reach_create c s)
  then show ?case by (rule createElection_counts_inv)
next
  case (reach_register s v)
  then show ?case by (simp add: registerVoter_counts_inv)
next
  case (reach_cast s vid cid f g r s')
  then show ?case using castVote_counts_inv by blast
qed

lemma build_result_plain:
  assumes "seeded [c] vs" and "c \<noteq> JNull" "c \<noteq> JUndefined"
    and "to_string (get_field c ''id'') \<noteq> Inr ''__proto__''"
  shows "build_result vs c = Inr (record_of vs c)"
proof (cases "truthy c \<and> truthy (get_field c ''id'')")
  case True
  with assms(1,4) obtain k n where "to_string (get_field c ''id'') = Inr k" "map_of vs k = Some n"
    by (auto simp: seeded_def)
  then show ?thesis
    using assms(2,3)
    by (simp add: build_result_def record_of_def candidate_key_def dict_read_def)
next
  case False
  then have "\<not> truthy (get_field c ''id'')" using get_field_falsy [of c] by auto
  from falsy_to_string [OF this] obtain k where
    k: "to_string (get_field c ''id'') = Inr k" "k \<notin> set (''__proto__'' # object_prototype_methods)"
    by blast
  then show ?thesis
    using assms(2,3)
    by (auto simp: build_result_def record_of_def candidate_key_def dict_read_def
          split: option.splits)
qed

lemma map_results_plain:
  assumes "seeded cs vs"
    and "\<forall>c \<in> set cs. c \<noteq> JNull \<and> c \<noteq> JUndefined
           \<and> to_string (get_field c ''id'') \<noteq> Inr ''__proto__''"
  shows "map_results vs cs = Inr (map (record_of vs) cs)"
  using assms
proof (induction cs)
  case Nil
  then show ?case by simp
next
  case (Cons c cs)
  have "seeded [c] vs" "seeded cs vs" using Cons.prems(1) by (auto simp: seeded_def)
  with Cons show ?case by (simp add: build_result_plain)
qed

lemma record_of_counted: "counted (record_of vs c)"
  by (simp add: counted_def record_of_def)

lemma record_of_nonneg: "\<forall>p \<in> set vs. 0 \<le> snd p \<Longrightarrow> 0 \<le> count_of (record_of vs c)"
  by (auto simp: count_of_def record_of_def split: option.splits dest!: map_of_SomeD)

lemma getResults_plain:
  assumes "reachable s" and "plain_candidates s"
  shows "getResults s sortFn =
     Inr (js_sort (case sortFn of Some f \<Rightarrow> f | None \<Rightarrow> default_cmp)
            (map (record_of (votes s)) (candidates s)))"
  using reachable_counts_inv [OF assms(1)] assms(2)
  by (simp add: getResults_def counts_inv_def plain_candidates_def map_results_plain
        split: option.splits)

lemma getResults_default_sorted:
  assumes "reachable s" and "plain_candidates s"
  shows "\<exists>rs. getResults s None = Inr rs
          \<and> mset rs = mset (map (record_of (votes s)) (candidates s))
          \<and> sorted (rev (map count_of rs))
          \<and> (\<forall>n. filter (\<lambda>r. count_of r = n) rs
                 = filter (\<lambda>r. count_of r = n) (map (record_of (votes s)) (candidates s)))"
proof -
  let ?rs = "map (record_of (votes s)) (candidates s)"
  let ?f = "\<lambda>r. - count_of r"
  have c: "\<forall>r \<in> set ?rs. counted r" by (auto simp: record_of_counted)
  have g: "getResults s None = Inr (sort_key ?f ?rs)"
    using getResults_plain [OF assms, of None] js_sort_default [OF c] by simp
  have "sorted (map ?f (sort_key ?f ?rs))" by (rule sorted_sort_key)
  then have srt: "sorted (rev (map count_of (sort_key ?f ?rs)))"
    by (simp add: sorted_wrt_map sorted_wrt_rev)
  have st: "filter (\<lambda>r. count_of r = n) (sort_key ?f ?rs) = filter (\<lambda>r. count_of r = n) ?rs" for n
    using sort_key_stable [of ?f "- n" ?rs] by simp
  show ?thesis using g srt st by simp
qed

lemma getWinner_plain:
  assumes "reachable s" and "plain_candidates s"
  shows "getWinner s =
     Inr (if candidates s = []
             \<or> (\<forall>r \<in> set (map (record_of (votes s)) (candidates s)). count_of r = 0)
          then None
          else first_with_most_votes (map (record_of (votes s)) (candidates s)))"
proof -
  let ?rs = "map (record_of (votes s)) (candidates s)"
  have inv: "counts_inv s" using assms(1) by (rule reachable_counts_inv)
  then have c: "\<forall>r \<in> set ?rs. counted r \<and> 0 \<le> count_of r"
    by (auto simp: record_of_counted record_of_nonneg counts_inv_def)
  have g: "getResults s None = Inr (js_sort default_cmp ?rs)"
    using getResults_plain [OF assms, of None] by simp
  have "getWinner s =
      Inr (if js_sort default_cmp ?rs = []
              \<or> list_all (\<lambda>r. rvotes r = Count 0) (js_sort default_cmp ?rs)
           then None else scan_winner (js_sort default_cmp ?rs) (- 1) None)"
    by (simp add: getWinner_def g)
  also have "(if js_sort default_cmp ?rs = []
              \<or> list_all (\<lambda>r. rvotes r = Count 0) (js_sort default_cmp ?rs)
           then None else scan_winner (js_sort default_cmp ?rs) (- 1) None)
      = (if ?rs = [] \<or> (\<forall>r \<in> set ?rs. count_of r = 0) then None
         else first_with_most_votes ?rs)"
    by (rule winner_of_sorted [OF c])
  finally show ?thesis by simp
qed

text \<open>
  Claim C4 (the code breaks it). \<open>getWinner\<close> is specified to return \<^verbatim>\<open>null\<close> or a
  result record in every session. In the session created from
  \<^verbatim>\<open>[null, {id: "C1", ...}]\<close> it throws a \<^verbatim>\<open>TypeError\<close>, inside \<open>getResults\<close>. In
  the session created from the candidates \<^verbatim>\<open>__proto__\<close> and C2, where no vote has been
  cast, it returns the record of C2 with 0 votes and not \<^verbatim>\<open>null\<close>. In every
  reachable session with plain candidates it returns what the claim says (lemma
  \<open>getWinner_plain\<close>).
\<close>

theorem getWinner_null_candidate:
  "(case createElection (JArr [JNull, candidate_object ''C1'' ''Ram'' ''Janata'']) of
      Inl e \<Rightarrow> None
    | Inr s \<Rightarrow> Some (getWinner s)) = Some (Inl TypeError)
   \<and> (case createElection (JArr [candidate_object ''__proto__'' ''Ram'' ''Janata'',
                                candidate_object ''C2'' ''Sita'' ''Lok'']) of
      Inl e \<Rightarrow> None
    | Inr s \<Rightarrow> Some (getWinner s)) =
       Some (Inr (Some \<lparr>rid = JStr ''C2'', rname = JStr ''Sita'', rparty = JStr ''Lok'',
                         rvotes = Count 0\<rparr>))"
  by (simp add: eval_defs)

theorem getWinner_null_candidate_witness:
  "(case createElection (JArr [JNull, candidate_object ''C1'' ''Ram'' ''Janata'']) of
      Inl e \<Rightarrow> None
    | Inr s \<Rightarrow> Some (getWinner s)) = Some (Inl TypeError)"
  by (rule conjunct1 [OF getWinner_null_candidate])

text \<open>
  Claim C7 (the code breaks it). \<open>getResults\<close> is specified to build one record per
  candidate, with the votes of the vote count map or 0, in every session. In the session
  created from \<^verbatim>\<open>[null, {id: "C1", ...}]\<close> it throws a \<^verbatim>\<open>TypeError\<close> at
  \<^verbatim>\<open>c.id\<close>, with or without a comparator; \<open>createElection\<close> itself skips the
  \<^verbatim>\<open>null\<close> element. In the session created from the candidate \<^verbatim>\<open>__proto__\<close> the
  record's votes are \<^verbatim>\<open>Object.prototype\<close>, not 0. In every reachable session with
  plain candidates it returns what the claim says (lemmas \<open>getResults_plain\<close> and
  \<open>getResults_default_sorted\<close>).
\<close>

theorem getResults_null_candidate:
  "(case createElection (JArr [JNull, candidate_object ''C1'' ''Ram'' ''Janata'']) of
      Inl e \<Rightarrow> None
    | Inr s \<Rightarrow> Some (getResults s sortFn)) = Some (Inl TypeError)
   \<and> (case createElection (JArr [candidate_object ''__proto__'' ''Ram'' ''Janata'']) of
      Inl e \<Rightarrow> None
    | Inr s \<Rightarrow> Some (getResults s None)) =
       Some (Inr [\<lparr>rid = JStr ''__proto__'', rname = JStr ''Ram'', rparty = JStr ''Janata'',
                   rvotes = ProtoValue\<rparr>])"
  by (simp add: eval_defs split: option.splits)

theorem getResults_null_candidate_witness:
  "(case createElection (JArr [JNull, candidate_object ''C1'' ''Ram'' ''Janata'']) of
      Inl e \<Rightarrow> None
    | Inr s \<Rightarrow> Some (getResults s None)) = Some (Inl TypeError)"
  by (rule conjunct1 [OF getResults_null_candidate])

section \<open>createVoteValidator\<close>

text \<open>
  \<^verbatim>\<open>x < y\<close> on arbitrary values: both operands become primitives (an array or object
  becomes its string, which can throw), two strings compare by code units, and anything
  else compares as numbers, \<^verbatim>\<open>undefined\<close> being \<^verbatim>\<open>NaN\<close>, \<^verbatim>\<open>null\<close> 0 and a boolean
  0 or 1. Parsing a string as a number is not modelled: such a comparison is
  \<open>Unmodelled\<close> unless the other operand is \<^verbatim>\<open>NaN\<close>, when it is false whatever the
  string means.
\<close>

definition to_primitive :: "jsval \<Rightarrow> error + jsval" where
  "to_primitive v =
     (case v of
        JArr xs \<Rightarrow> (case to_string v of Inl e \<Rightarrow> Inl e | Inr s \<Rightarrow> Inr (JStr s))
      | JObj ps \<Rightarrow> (case to_string v of Inl e \<Rightarrow> Inl e | Inr s \<Rightarrow> Inr (JStr s))
      | _ \<Rightarrow> Inr v)"

fun str_lt :: "string \<Rightarrow> string \<Rightarrow> bool" where
  "str_lt [] [] = False"
| "str_lt [] (y # ys) = True"
| "str_lt (x # xs) [] = False"
| "str_lt (x # xs) (y # ys) =
     ((of_char x :: nat) < of_char y \<or> (x = y \<and> str_lt xs ys))"

fun to_number :: "jsval \<Rightarrow> error + num" where
  "to_number JUndefined = Inr NaN"
| "to_number JNull = Inr (Fin 0)"
| "to_number (JBool b) = Inr (Fin (if b then 1 else 0))"
| "to_number (JNum n) = Inr n"
| "to_number _ = Inl Unmodelled"

definition js_lt :: "jsval \<Rightarrow> jsval \<Rightarrow> error + bool" where
  "js_lt x y =
     (case to_primitive x of
        Inl e \<Rightarrow> Inl e
      | Inr px \<Rightarrow>
          (case to_primitive y of
             Inl e \<Rightarrow> Inl e
           | Inr py \<Rightarrow>
               (case (px, py) of
                  (JStr a, JStr b) \<Rightarrow> Inr (str_lt a b)
                | _ \<Rightarrow>
                    (case (to_number px, to_number py) of
                       (Inr a, Inr b) \<Rightarrow> Inr (num_lt a b)
                     | (Inr NaN, _) \<Rightarrow> Inr False
                     | (_, Inr NaN) \<Rightarrow> Inr False
                     | _ \<Rightarrow> Inl Unmodelled))))"

text \<open>
  \<^verbatim>\<open>
  export function createVoteValidator(rules) {
    if (!rules || typeof rules !== "object") return () => ({ valid: false });
    const { minAge = 18, requiredFields = ["id", "name", "age"] } = rules;
    return function (voter) {
      if (!voter || typeof voter !== "object")
        return { valid: false, reason: "Invalid voter object" };
      for (const field of requiredFields) {
        if (!voter.hasOwnProperty(field))
          return { valid: false, reason: `Missing field: ${field}` };
      }
      if (voter.age < minAge)
        return { valid: false, reason: `Voter below minimum age ${minAge}` };
      return { valid: true, reason: "" };
    };
  }
  \<close>
  The factory itself cannot throw, so the validator it returns is the partial application
  \<open>createVoteValidator rules\<close>. A destructuring default applies to \<^verbatim>\<open>undefined\<close> only.
  \<open>iterate\<close> is what \<^verbatim>\<open>for ... of\<close> runs over: the elements of an array, the
  characters of a string, and a \<^verbatim>\<open>TypeError\<close> on a value that is not iterable.
  \<^verbatim>\<open>voter.hasOwnProperty\<close> is a property read on the voter: an own property of that
  name is not a function, and calling it throws. On an array the own properties are
  the indices and \<^verbatim>\<open>length\<close>. The result has no \<open>reason\<close> (\<open>None\<close>) only in the
  degenerate validator.
\<close>

definition iterate :: "jsval \<Rightarrow> error + jsval list" where
  "iterate v =
     (case v of
        JArr xs \<Rightarrow> Inr xs
      | JStr s \<Rightarrow> Inr (map (\<lambda>c. JStr [c]) s)
      | _ \<Rightarrow> Inl TypeError)"

definition call_hasOwnProperty :: "jsval \<Rightarrow> jsval \<Rightarrow> error + bool" where
  "call_hasOwnProperty obj key =
     (case obj of
        JObj ps \<Rightarrow>
          if map_of ps ''hasOwnProperty'' \<noteq> None then Inl TypeError
          else (case to_string key of Inl e \<Rightarrow> Inl e | Inr k \<Rightarrow> Inr (map_of ps k \<noteq> None))
      | JArr xs \<Rightarrow>
          (case to_string key of
             Inl e \<Rightarrow> Inl e
           | Inr k \<Rightarrow> Inr (k = ''length'' \<or> k \<in> set (map show_nat [0..<length xs])))
      | _ \<Rightarrow> Inl Unmodelled)"

record vresult =
  valid :: bool
  reason :: "string option"

fun check_fields :: "jsval \<Rightarrow> jsval list \<Rightarrow> error + string option" where
  "check_fields voter [] = Inr None"
| "check_fields voter (field # rest) =
     (case call_hasOwnProperty voter field of
        Inl e \<Rightarrow> Inl e
      | Inr False \<Rightarrow> (case to_string field of Inl e \<Rightarrow> Inl e | Inr name \<Rightarrow> Inr (Some name))
      | Inr True \<Rightarrow> check_fields voter rest)"

definition rules_minAge :: "jsval \<Rightarrow> jsval" where
  "rules_minAge rules =
     (case get_field rules ''minAge'' of JUndefined \<Rightarrow> JNum (Fin 18) | v \<Rightarrow> v)"

definition rules_requiredFields :: "jsval \<Rightarrow> jsval" where
  "rules_requiredFields rules =
     (case get_field rules ''requiredFields'' of
        JUndefined \<Rightarrow> JArr [JStr ''id'', JStr ''name'', JStr ''age''] | v \<Rightarrow> v)"

definition createVoteValidator :: "jsval \<Rightarrow> jsval \<Rightarrow> error + vresult" where
  "createVoteValidator rules voter =
     (if \<not> truthy rules \<or> typeof rules \<noteq> TObject then Inr \<lparr>valid = False, reason = None\<rparr>
      else
        let minAge = rules_minAge rules;
            requiredFields = rules_requiredFields rules
        in
          if \<not> truthy voter \<or> typeof voter \<noteq> TObject
          then Inr \<lparr>valid = False, reason = Some ''Invalid voter object''\<rparr>
          else
            (case iterate requiredFields of
               Inl e \<Rightarrow> Inl e
             | Inr fs \<Rightarrow>
                 (case check_fields voter fs of
                    Inl e \<Rightarrow> Inl e
                  | Inr (Some name) \<Rightarrow>
                      Inr \<lparr>valid = False, reason = Some (''Missing field: '' @ name)\<rparr>
                  | Inr None \<Rightarrow>
                      (case js_lt (get_field voter ''age'') minAge of
                         Inl e \<Rightarrow> Inl e
                       | Inr True \<Rightarrow>
                           (case to_string minAge of
                              Inl e \<Rightarrow> Inl e
                            | Inr m \<Rightarrow>
                                Inr \<lparr>valid = False,
                                     reason = Some (''Voter below minimum age '' @ m)\<rparr>)
                       | Inr False \<Rightarrow> Inr \<lparr>valid = True, reason = Some ''''\<rparr>))))"


lemmas validator_defs = createVoteValidator_def rules_minAge_def rules_requiredFields_def
  iterate_def call_hasOwnProperty_def js_lt_def
  to_primitive_def get_field_def Let_def show_int_def show_nat.simps digit_char_def


text \<open>
  What the validator does on a voter object that has no own property
  \<^verbatim>\<open>hasOwnProperty\<close>, when the required fields are an array of strings: the first
  missing field is reported, then the age is compared, and a voter with every required
  field and no age is valid.
\<close>

lemma check_fields_strings:
  "map_of ps ''hasOwnProperty'' = None \<Longrightarrow>
   check_fields (JObj ps) (map JStr names) = Inr (find (\<lambda>n. map_of ps n = None) names)"
  by (induction names) (auto simp: call_hasOwnProperty_def)

lemma js_lt_undefined:
  "to_primitive m = Inr p \<Longrightarrow> js_lt JUndefined m = Inr False"
  by (cases p; cases "to_number p")
     (auto simp: js_lt_def to_primitive_def split: num.splits sum.splits error.splits)

lemma js_lt_numbers: "js_lt (JNum a) (JNum m) = Inr (num_lt a m)"
  by (cases a; cases m) (simp_all add: js_lt_def to_primitive_def)

lemma validator_wellformed:
  assumes rules: "truthy rules" "typeof rules = TObject"
    and fields: "rules_requiredFields rules = JArr (map JStr names)"
    and voter: "map_of ps ''hasOwnProperty'' = None"
  shows "createVoteValidator rules (JObj ps) =
     (case find (\<lambda>n. map_of ps n = None) names of
        Some n \<Rightarrow> Inr \<lparr>valid = False, reason = Some (''Missing field: '' @ n)\<rparr>
      | None \<Rightarrow>
          (case js_lt (get_field (JObj ps) ''age'') (rules_minAge rules) of
             Inl e \<Rightarrow> Inl e
           | Inr True \<Rightarrow>
               (case to_string (rules_minAge rules) of
                  Inl e \<Rightarrow> Inl e
                | Inr m \<Rightarrow> Inr \<lparr>valid = False, reason = Some (''Voter below minimum age '' @ m)\<rparr>)
           | Inr False \<Rightarrow> Inr \<lparr>valid = True, reason = Some ''''\<rparr>))"
  using rules fields
  by (simp add: createVoteValidator_def iterate_def
        check_fields_strings [OF voter] Let_def split: option.splits)

lemma validator_absent_age:
  assumes rules: "truthy rules" "typeof rules = TObject"
    and fields: "rules_requiredFields rules = JArr (map JStr names)"
    and minAge: "to_primitive (rules_minAge rules) = Inr p"
    and voter: "map_of ps ''hasOwnProperty'' = None"
    and has: "\<forall>n \<in> set names. map_of ps n \<noteq> None"
    and age: "map_of ps ''age'' = None"
  shows "createVoteValidator rules (JObj ps) = Inr \<lparr>valid = True, reason = Some ''''\<rparr>"
proof -
  from has have "find (\<lambda>n. map_of ps n = None) names = None"
    by (simp add: find_None_iff)
  moreover from age have "get_field (JObj ps) ''age'' = JUndefined"
    by (simp add: get_field_def)
  ultimately show ?thesis
    using validator_wellformed [OF rules fields voter] js_lt_undefined [OF minAge] by simp
qed

lemma validator_degenerate:
  "\<not> truthy rules \<or> typeof rules \<noteq> TObject \<Longrightarrow>
   createVoteValidator rules voter = Inr \<lparr>valid = False, reason = None\<rparr>"
  by (auto simp: createVoteValidator_def)

lemma validator_non_object:
  "truthy rules \<Longrightarrow> typeof rules = TObject \<Longrightarrow> \<not> truthy voter \<or> typeof voter \<noteq> TObject \<Longrightarrow>
   createVoteValidator rules voter = Inr \<lparr>valid = False, reason = Some ''Invalid voter object''\<rparr>"
  by (auto simp: createVoteValidator_def Let_def)

text \<open>
  Claim C8 (the code breaks it). The validator is specified never to throw. With the
  default rules, on the voter
  \<^verbatim>\<open>{id: "V1", name: "Mohan", age: 25, hasOwnProperty: true}\<close> it throws a
  \<^verbatim>\<open>TypeError\<close> at \<^verbatim>\<open>voter.hasOwnProperty(field)\<close>. The example of the specification
  evaluates as specified: with \<^verbatim>\<open>minAge\<close> 21 and required fields \<^verbatim>\<open>id\<close> and
  \<^verbatim>\<open>age\<close>, the voter \<^verbatim>\<open>{id: "v1", age: 19}\<close> is below the minimum age 21. Lemmas
  \<open>validator_degenerate\<close>, \<open>validator_non_object\<close> and \<open>validator_wellformed\<close>
  show the specified results on voters without the shadowing property.
\<close>

theorem createVoteValidator_throws:
  "createVoteValidator (JObj [])
     (JObj [(''id'', JStr ''V1''), (''name'', JStr ''Mohan''), (''age'', JNum (Fin 25)),
            (''hasOwnProperty'', JBool True)]) = Inl TypeError
   \<and> createVoteValidator
       (JObj [(''minAge'', JNum (Fin 21)), (''requiredFields'', JArr [JStr ''id'', JStr ''age''])])
       (JObj [(''id'', JStr ''v1''), (''age'', JNum (Fin 19))])
     = Inr \<lparr>valid = False, reason = Some ''Voter below minimum age 21''\<rparr>"
  by (simp add: validator_defs)

theorem createVoteValidator_throws_witness:
  "createVoteValidator (JObj [])
     (JObj [(''id'', JStr ''V1''), (''name'', JStr ''Mohan''), (''age'', JNum (Fin 25)),
            (''hasOwnProperty'', JBool True)]) = Inl TypeError"
  by (rule conjunct1 [OF createVoteValidator_throws])

text \<open>
  Claim C10 (the code breaks it). A voter with every required field and no age is
  specified to be valid whatever \<^verbatim>\<open>minAge\<close> is. With \<^verbatim>\<open>minAge\<close> 21 and the one
  required field \<^verbatim>\<open>id\<close>, the voter \<^verbatim>\<open>{id: "V1", hasOwnProperty: true}\<close> has the
  field and no age, and the validator throws a \<^verbatim>\<open>TypeError\<close>; without the extra
  property the same voter is valid, as is every such voter (lemma
  \<open>validator_absent_age\<close>).
\<close>

theorem validator_absent_age_throws:
  "createVoteValidator
     (JObj [(''minAge'', JNum (Fin 21)), (''requiredFields'', JArr [JStr ''id''])])
     (JObj [(''id'', JStr ''V1''), (''hasOwnProperty'', JBool True)]) = Inl TypeError
   \<and> createVoteValidator
     (JObj [(''minAge'', JNum (Fin 21)), (''requiredFields'', JArr [JStr ''id''])])
     (JObj [(''id'', JStr ''V1'')]) = Inr \<lparr>valid = True, reason = Some []\<rparr>"
  by (simp add: validator_defs)

theorem validator_absent_age_throws_witness:
  "createVoteValidator
     (JObj [(''minAge'', JNum (Fin 21)), (''requiredFields'', JArr [JStr ''id''])])
     (JObj [(''id'', JStr ''V1''), (''hasOwnProperty'', JBool True)]) = Inl TypeError"
  by (rule conjunct1 [OF validator_absent_age_throws])

end
